theory Spec2Isabelle
  imports Complex_Main
begin

section \<open>Loitering detection manager\<close>

text \<open>
  The class \<open>LoiteringDetectionManager\<close> of \<open>object_detection_post_process.py\<close>.
  Track ids and frame numbers are Python integers (\<open>int\<close>); the thresholds are Python
  floats, read here as real numbers. The attribute \<open>track_start_frames\<close> is a
  \<open>defaultdict(int)\<close>, modelled as a partial map from track ids to start frames.
\<close>

record loitering_manager =
  loitering_threshold :: real
  frame_threshold :: real
  track_start_frames :: "int \<rightharpoonup> int"
  current_frame :: int

text \<open>\<open>__init__(self, loitering_threshold, fps)\<close>.\<close>

definition LoiteringDetectionManager_init :: "real \<Rightarrow> real \<Rightarrow> loitering_manager" where
  "LoiteringDetectionManager_init thr fps =
     \<lparr> loitering_threshold = thr,
       frame_threshold = thr * fps,
       track_start_frames = Map.empty,
       current_frame = 0 \<rparr>"

text \<open>
  Reading \<open>d[k]\<close> on a \<open>defaultdict(int)\<close>: a present key gives its value; a missing key
  is inserted with the factory's value \<open>int() = 0\<close>, which is then returned.
  The test \<open>k in d\<close> is \<open>k \<in> dom d\<close> and never inserts.
\<close>

definition defaultdict_getitem :: "(int \<rightharpoonup> int) \<Rightarrow> int \<Rightarrow> (int \<rightharpoonup> int) \<times> int" where
  "defaultdict_getitem d k =
     (case d k of Some v \<Rightarrow> (d, v) | None \<Rightarrow> (d(k \<mapsto> 0), 0))"

definition update_frame_count :: "loitering_manager \<Rightarrow> loitering_manager" where
  "update_frame_count st = st\<lparr>current_frame := current_frame st + 1\<rparr>"

definition update_track :: "loitering_manager \<Rightarrow> int \<Rightarrow> loitering_manager" where
  "update_track st track_id =
     (if track_id \<notin> dom (track_start_frames st)
      then st\<lparr>track_start_frames := (track_start_frames st)(track_id \<mapsto> current_frame st)\<rparr>
      else st)"

text \<open>
  \<open>is_loitering\<close> returns the manager as the call leaves it together with the answer,
  so that what the call does to the dictionary is part of the model.
\<close>

definition is_loitering :: "loitering_manager \<Rightarrow> int \<Rightarrow> loitering_manager \<times> bool" where
  "is_loitering st track_id =
     (if track_id \<notin> dom (track_start_frames st) then (st, False)
      else
        (let (d, start) = defaultdict_getitem (track_start_frames st) track_id;
             st' = st\<lparr>track_start_frames := d\<rparr>;
             frames_present = current_frame st' - start
         in (st', real_of_int frames_present > frame_threshold st')))"

text \<open>
  \<open>cleanup_missing_tracks\<close>: the first loop collects the recorded ids that are not in
  \<open>current_track_ids\<close>, the second deletes each of them. The ids deleted are keys of the
  dictionary, so \<open>del\<close> never meets a missing key.
\<close>

definition cleanup_missing_tracks :: "loitering_manager \<Rightarrow> int set \<Rightarrow> loitering_manager" where
  "cleanup_missing_tracks st current_track_ids =
     (let ids_to_remove = {track_id \<in> dom (track_start_frames st). track_id \<notin> current_track_ids}
      in st\<lparr>track_start_frames := track_start_frames st |` (- ids_to_remove)\<rparr>)"

text \<open>A call on the manager, and the manager after a sequence of calls.\<close>

datatype lm_call =
    UpdateFrameCount
  | UpdateTrack int
  | IsLoitering int
  | CleanupMissingTracks "int set"

fun lm_step :: "lm_call \<Rightarrow> loitering_manager \<Rightarrow> loitering_manager" where
  "lm_step UpdateFrameCount st = update_frame_count st"
| "lm_step (UpdateTrack k) st = update_track st k"
| "lm_step (IsLoitering k) st = fst (is_loitering st k)"
| "lm_step (CleanupMissingTracks ids) st = cleanup_missing_tracks st ids"

definition lm_run :: "lm_call list \<Rightarrow> loitering_manager \<Rightarrow> loitering_manager" where
  "lm_run calls st = fold lm_step calls st"

text \<open>The active set of every cleanup call of a sequence contains the track id.\<close>

fun kept_by :: "int \<Rightarrow> lm_call \<Rightarrow> bool" where
  "kept_by k (CleanupMissingTracks ids) = (k \<in> ids)"
| "kept_by k _ = True"

section \<open>Geometry: intersection over union\<close>

text \<open>
  The exceptions the post-processing code can raise by itself: an index out of range,
  a missing dictionary key, a float division by zero, a sequence unpacked into the wrong
  number of names.
\<close>

datatype py_error = IndexError | KeyError | ZeroDivisionError | ValueError

text \<open>
  \<open>compute_iou(boxA, boxB)\<close>. A box is a Python sequence of numbers, read as a list of
  reals; the code reads the entries 0 to 3 of both boxes, so a box with fewer than four
  entries raises \<open>IndexError\<close>. The constant \<open>1e-5\<close> is \<open>1 / 100000\<close>. The division
  raises \<open>ZeroDivisionError\<close> on a zero denominator.
\<close>

definition compute_iou :: "real list \<Rightarrow> real list \<Rightarrow> py_error + real" where
  "compute_iou boxA boxB =
     (if length boxA < 4 \<or> length boxB < 4 then Inl IndexError
      else
        (let xA = max (boxA ! 0) (boxB ! 0);
             yA = max (boxA ! 1) (boxB ! 1);
             xB = min (boxA ! 2) (boxB ! 2);
             yB = min (boxA ! 3) (boxB ! 3);
             inter = max 0 (xB - xA) * max 0 (yB - yA);
             areaA = max (1 / 100000) ((boxA ! 2 - boxA ! 0) * (boxA ! 3 - boxA ! 1));
             areaB = max (1 / 100000) ((boxB ! 2 - boxB ! 0) * (boxB ! 3 - boxB ! 1));
             denom = areaA + areaB - inter + 1 / 100000
         in if denom = 0 then Inl ZeroDivisionError else Inr (inter / denom)))"

section \<open>Track matcher\<close>

text \<open>
  \<open>find_best_matching_detection_index(track_box, detection_boxes)\<close>. The loop over
  \<open>enumerate(detection_boxes)\<close> carries \<open>best_iou\<close> and \<open>best_idx\<close>, which start at
  \<open>0\<close> and \<open>-1\<close>; an exception of \<open>compute_iou\<close> ends the loop.
\<close>

fun find_best_loop ::
  "real list \<Rightarrow> real list list \<Rightarrow> int \<Rightarrow> real \<Rightarrow> int \<Rightarrow> py_error + (real \<times> int)" where
  "find_best_loop track_box [] i best_iou best_idx = Inr (best_iou, best_idx)"
| "find_best_loop track_box (det_box # rest) i best_iou best_idx =
     (case compute_iou track_box det_box of
        Inl e \<Rightarrow> Inl e
      | Inr iou \<Rightarrow>
          if iou > best_iou then find_best_loop track_box rest (i + 1) iou i
          else find_best_loop track_box rest (i + 1) best_iou best_idx)"

definition find_best_matching_detection_index ::
  "real list \<Rightarrow> real list list \<Rightarrow> py_error + int option" where
  "find_best_matching_detection_index track_box detection_boxes =
     (case find_best_loop track_box detection_boxes 0 0 (- 1) of
        Inl e \<Rightarrow> Inl e
      | Inr (best_iou, best_idx) \<Rightarrow> Inr (if best_idx \<noteq> - 1 then Some best_idx else None))"

text \<open>The IoU of two well-formed boxes, as a number, for stating properties.\<close>

definition iou_value :: "real list \<Rightarrow> real list \<Rightarrow> real" where
  "iou_value boxA boxB = projr (compute_iou boxA boxB)"

section \<open>Detection selector\<close>

text \<open>Python's \<open>int(x)\<close> on a float truncates toward zero.\<close>

definition py_int :: "real \<Rightarrow> int" where
  "py_int x = (if 0 \<le> x then \<lfloor>x\<rfloor> else \<lceil>x\<rceil>)"

text \<open>The slice \<open>xs[:n]\<close>: a negative \<open>n\<close> counts from the end.\<close>

definition py_slice_to :: "'a list \<Rightarrow> int \<Rightarrow> 'a list" where
  "py_slice_to xs n = (if 0 \<le> n then take (nat n) xs else take (length xs - nat (- n)) xs)"

text \<open>
  \<open>denormalize_and_rm_pad(box, size, padding_length, input_height, input_width)\<close>:
  every entry is scaled and truncated, then the padding is taken off the entries of odd
  index when the width differs from \<open>size\<close> and off those of even index when the height
  does. The entries are integers, kept here as reals since boxes go on to \<open>compute_iou\<close>;
  the parameter \<open>size\<close> is written \<open>sz\<close>.
\<close>

definition denormalize_entry :: "int \<Rightarrow> int \<Rightarrow> int \<Rightarrow> int \<Rightarrow> nat \<Rightarrow> real \<Rightarrow> int" where
  "denormalize_entry sz padding_length input_height input_width i x =
     (let v = py_int (x * real_of_int sz);
          v1 = (if input_width \<noteq> sz \<and> i mod 2 \<noteq> 0 then v - padding_length else v);
          v2 = (if input_height \<noteq> sz \<and> i mod 2 = 0 then v1 - padding_length else v1)
      in v2)"

definition denormalize_and_rm_pad :: "real list \<Rightarrow> int \<Rightarrow> int \<Rightarrow> int \<Rightarrow> int \<Rightarrow> real list" where
  "denormalize_and_rm_pad box sz padding_length input_height input_width =
     map (\<lambda>(i, x). real_of_int (denormalize_entry sz padding_length input_height input_width i x))
       (enumerate 0 box)"

text \<open>
  The configuration: \<open>config_data["visualization_params"]\<close> raises \<open>KeyError\<close> when the
  key is missing (\<open>None\<close> here); \<open>score_thres\<close> and \<open>max_boxes_to_draw\<close> are read with
  \<open>.get\<close> and the defaults \<open>0.5\<close> and \<open>50\<close>.
\<close>

record visualization_params =
  score_thres :: "real option"
  max_boxes_to_draw :: "int option"

type_synonym config_data = "visualization_params option"

definition get_score_threshold :: "visualization_params \<Rightarrow> real" where
  "get_score_threshold vp = (case score_thres vp of Some t \<Rightarrow> t | None \<Rightarrow> 1 / 2)"

definition get_max_boxes :: "visualization_params \<Rightarrow> int" where
  "get_max_boxes vp = (case max_boxes_to_draw vp of Some n \<Rightarrow> n | None \<Rightarrow> 50)"

text \<open>The dictionary that \<open>extract_detections\<close> returns.\<close>

record detections =
  detection_boxes :: "real list list"
  detection_classes :: "nat list"
  detection_scores :: "real list"
  num_detections :: nat

text \<open>\<open>target_labels\<close> defaults to person and car.\<close>

definition default_target_labels :: "string list option \<Rightarrow> string list" where
  "default_target_labels target_labels =
     (case target_labels of None \<Rightarrow> [''person'', ''car''] | Some ls \<Rightarrow> ls)"

text \<open>The indices of the labels that are target labels (the loop over \<open>enumerate(labels)\<close>).\<close>

definition target_class_indices :: "string list \<Rightarrow> string list \<Rightarrow> nat set" where
  "target_class_indices labels target_labels =
     set (map fst (filter (\<lambda>(idx, label). label \<in> set target_labels) (enumerate 0 labels)))"

text \<open>
  The inner loop over the raw detections of one class: a detection is its four
  coordinates followed by its score, and \<open>det[4]\<close> raises \<open>IndexError\<close> on a shorter one.
  A candidate is the triple \<open>(score, class_id, denorm_bbox)\<close>.
\<close>

type_synonym candidate = "real \<times> nat \<times> real list"

fun class_candidates ::
  "real \<Rightarrow> (real list \<Rightarrow> real list) \<Rightarrow> nat \<Rightarrow> real list list \<Rightarrow> py_error + candidate list" where
  "class_candidates score_threshold denorm class_id [] = Inr []"
| "class_candidates score_threshold denorm class_id (det # rest) =
     (if length det < 5 then Inl IndexError
      else
        (case class_candidates score_threshold denorm class_id rest of
           Inl e \<Rightarrow> Inl e
         | Inr cs \<Rightarrow>
             Inr (if det ! 4 \<ge> score_threshold
                  then (det ! 4, class_id, denorm (take 4 det)) # cs else cs)))"

text \<open>The outer loop over \<open>enumerate(detections)\<close>: only target classes are processed.\<close>

fun all_candidates ::
  "nat set \<Rightarrow> real \<Rightarrow> (real list \<Rightarrow> real list) \<Rightarrow> (nat \<times> real list list) list
     \<Rightarrow> py_error + candidate list" where
  "all_candidates tci score_threshold denorm [] = Inr []"
| "all_candidates tci score_threshold denorm ((class_id, detection) # rest) =
     (if class_id \<in> tci
      then
        (case class_candidates score_threshold denorm class_id detection of
           Inl e \<Rightarrow> Inl e
         | Inr cs \<Rightarrow>
             (case all_candidates tci score_threshold denorm rest of
                Inl e \<Rightarrow> Inl e
              | Inr ps \<Rightarrow> Inr (cs @ ps)))
      else all_candidates tci score_threshold denorm rest)"

text \<open>
  \<open>extract_detections(image, detections, config_data, labels, target_labels)\<close>; of the
  image only \<open>image.shape[:2]\<close> is used, passed as height and width. The sort
  \<open>sort(reverse=True, key=lambda x: x[0])\<close> is stable and descending by score: it is the
  stable ascending sort by negated score.
\<close>

definition extract_detections ::
  "int \<Rightarrow> int \<Rightarrow> real list list list \<Rightarrow> config_data \<Rightarrow> string list \<Rightarrow> string list option
     \<Rightarrow> py_error + detections" where
  "extract_detections img_height img_width raw config labels target_labels =
     (let tl = default_target_labels target_labels;
          tci = target_class_indices labels tl
      in case config of
           None \<Rightarrow> Inl KeyError
         | Some vp \<Rightarrow>
             (let score_threshold = get_score_threshold vp;
                  max_boxes = get_max_boxes vp;
                  sz = max img_height img_width;
                  padding_length = py_int (real_of_int \<bar>img_height - img_width\<bar> / 2);
                  denorm = (\<lambda>bbox. denormalize_and_rm_pad bbox sz padding_length img_height img_width)
              in case all_candidates tci score_threshold denorm (enumerate 0 raw) of
                   Inl e \<Rightarrow> Inl e
                 | Inr all_detections \<Rightarrow>
                     (let sorted_detections = sort_key (\<lambda>c. - fst c) all_detections;
                          top_detections = py_slice_to sorted_detections max_boxes
                      in Inr \<lparr> detection_boxes = map (\<lambda>c. snd (snd c)) top_detections,
                               detection_classes = map (\<lambda>c. fst (snd c)) top_detections,
                               detection_scores = map fst top_detections,
                               num_detections = length top_detections \<rparr>)))"

section \<open>Frame orchestrator\<close>

text \<open>
  A track returned by the external tracker: \<open>draw_detections\<close> reads its attributes
  \<open>track_id\<close>, \<open>tlbr\<close> and \<open>score\<close>.
\<close>

record track =
  track_id :: int
  tlbr :: "real list"
  score :: real

text \<open>
  The class \<open>SpeedEstimationManager\<close> is imported from the module \<open>speed_estimation\<close>,
  which is not among the sources at hand. A speed manager is therefore its state together
  with its two methods, each taking the state and returning the state it leaves and its
  answer (\<open>None\<close> when no speed is available).
\<close>

record 's speed_manager =
  sm_state :: 's
  estimate_speed :: "'s \<Rightarrow> int \<Rightarrow> int list \<Rightarrow> 's \<times> real option"
  get_smoothed_speed :: "'s \<Rightarrow> int \<Rightarrow> 's \<times> real option"

text \<open>
  Colours: \<open>id_to_color(c)\<close> comes from \<open>utils.toolbox\<close> and is kept symbolic; the other
  colour is the red \<open>(0, 0, 255)\<close> of a loitering track. Labels: a class name, or the text
  \<open>f"ID {track_id}"\<close>.
\<close>

datatype color = IdToColor nat | Red

datatype label_text = ClassLabel string | IdLabel int

text \<open>
  \<open>draw_detection(image, box, labels, score, color, track, speed)\<close> draws on the image
  with OpenCV. What it draws is recorded as the arguments of the call; the box is unpacked
  into four names after \<open>map(int, box)\<close>, and both texts read \<open>labels[0]\<close> unless there
  are two labels on a track.
\<close>

record drawn =
  drawn_box :: "int list"
  drawn_labels :: "label_text list"
  drawn_score :: real
  drawn_color :: color
  drawn_track :: bool
  drawn_speed :: "real option"

definition draw_detection ::
  "real list \<Rightarrow> label_text list \<Rightarrow> real \<Rightarrow> color \<Rightarrow> bool \<Rightarrow> real option \<Rightarrow> py_error + drawn" where
  "draw_detection box lbls sc col trk speed =
     (if length box \<noteq> 4 then Inl ValueError
      else if lbls = [] then Inl IndexError
      else Inr \<lparr> drawn_box = map py_int box, drawn_labels = lbls, drawn_score = sc,
                 drawn_color = col, drawn_track = trk, drawn_speed = speed \<rparr>)"

text \<open>
  The first loop of \<open>draw_detections\<close>, over \<open>range(num_detections)\<close>: it keeps the box,
  the score and the class of every detection whose class is a target class. The three
  lists it builds are kept as one list of triples.
\<close>

fun target_filter_loop ::
  "nat set \<Rightarrow> real list list \<Rightarrow> real list \<Rightarrow> nat list \<Rightarrow> nat list
     \<Rightarrow> py_error + (real list \<times> real \<times> nat) list" where
  "target_filter_loop tci boxes scores classes [] = Inr []"
| "target_filter_loop tci boxes scores classes (i # rest) =
     (if length classes \<le> i then Inl IndexError
      else if classes ! i \<in> tci
      then
        (if length boxes \<le> i \<or> length scores \<le> i then Inl IndexError
         else
           (case target_filter_loop tci boxes scores classes rest of
              Inl e \<Rightarrow> Inl e
            | Inr kept \<Rightarrow> Inr ((boxes ! i, scores ! i, classes ! i) # kept)))
      else target_filter_loop tci boxes scores classes rest)"

text \<open>
  What one call of \<open>draw_detections\<close> leaves: the loitering manager, the speed manager, the
  calls made on the loitering manager in their order, and what was drawn on the image.
\<close>

record 's frame =
  fr_manager :: "loitering_manager option"
  fr_speed :: "'s speed_manager option"
  fr_calls :: "lm_call list"
  fr_drawn :: "drawn list"

text \<open>
  The loitering check of one matched track: \<open>update_track\<close> then \<open>is_loitering\<close> when
  loitering detection is on, the track is relevant and there is a manager; the colour
  turns red on a loitering track.
\<close>

definition loitering_check ::
  "bool \<Rightarrow> bool \<Rightarrow> int \<Rightarrow> nat \<Rightarrow> int \<Rightarrow> loitering_manager option \<Rightarrow> color
     \<Rightarrow> loitering_manager option \<times> lm_call list \<times> color" where
  "loitering_check loitering_detection enable_person_only person_class_index cls tid mgr col =
     (if loitering_detection
      then
        (let is_person = (person_class_index \<noteq> - 1 \<and> int cls = person_class_index);
             is_relevant = (\<not> enable_person_only \<or> is_person)
         in case mgr of
              Some m \<Rightarrow>
                if is_relevant
                then
                  (let m1 = update_track m tid;
                       (m2, loitering) = is_loitering m1 tid
                   in (Some m2, [UpdateTrack tid, IsLoitering tid], if loitering then Red else col))
                else (mgr, [], col)
            | None \<Rightarrow> (mgr, [], col))
      else (mgr, [], col))"

text \<open>The speed shown for one matched track, and the speed manager after its calls.\<close>

definition speed_display ::
  "'s speed_manager option \<Rightarrow> int \<Rightarrow> int list \<Rightarrow> 's speed_manager option \<times> real option" where
  "speed_display speed_mgr tid bbox =
     (case speed_mgr of
        None \<Rightarrow> (None, None)
      | Some sm \<Rightarrow>
          (let (s1, speed) = estimate_speed sm (sm_state sm) tid bbox
           in case speed of
                None \<Rightarrow> (Some (sm\<lparr>sm_state := s1\<rparr>), None)
              | Some v \<Rightarrow>
                  (let (s2, smoothed_speed) = get_smoothed_speed sm s1 tid
                   in (Some (sm\<lparr>sm_state := s2\<rparr>), smoothed_speed))))"

text \<open>
  The body of the loop over \<open>online_targets\<close>, on the set \<open>current_track_ids\<close> and the
  frame so far. A track without a matching detection changes nothing.
\<close>

definition track_step ::
  "string list \<Rightarrow> real list list \<Rightarrow> nat list \<Rightarrow> bool \<Rightarrow> bool \<Rightarrow> int \<Rightarrow> track
     \<Rightarrow> int set \<times> 's frame \<Rightarrow> py_error + (int set \<times> 's frame)" where
  "track_step labels boxes classes loitering_detection enable_person_only person_class_index t s =
     (if length (tlbr t) \<noteq> 4 then Inl ValueError
      else
        (let xmin = py_int (tlbr t ! 0); ymin = py_int (tlbr t ! 1);
             xmax = py_int (tlbr t ! 2); ymax = py_int (tlbr t ! 3)
         in case find_best_matching_detection_index (tlbr t) boxes of
              Inl e \<Rightarrow> Inl e
            | Inr None \<Rightarrow> Inr s
            | Inr (Some best_idx) \<Rightarrow>
                if length classes \<le> nat best_idx then Inl IndexError
                else
                  (let current_track_ids = insert (track_id t) (fst s);
                       fr = snd s;
                       cls = classes ! nat best_idx;
                       (mgr, new_calls, col) =
                         loitering_check loitering_detection enable_person_only person_class_index
                           cls (track_id t) (fr_manager fr) (IdToColor cls);
                       (speed_mgr, display_speed) =
                         speed_display (fr_speed fr) (track_id t) [xmin, ymin, xmax, ymax]
                   in if length labels \<le> cls then Inl IndexError
                      else
                        (case draw_detection (map real_of_int [xmin, ymin, xmax, ymax])
                                [ClassLabel (labels ! cls), IdLabel (track_id t)]
                                (score t * 100) col True display_speed of
                           Inl e \<Rightarrow> Inl e
                         | Inr d \<Rightarrow>
                             Inr (current_track_ids,
                                  \<lparr> fr_manager = mgr, fr_speed = speed_mgr,
                                    fr_calls = fr_calls fr @ new_calls,
                                    fr_drawn = fr_drawn fr @ [d] \<rparr>)))))"

fun track_loop ::
  "string list \<Rightarrow> real list list \<Rightarrow> nat list \<Rightarrow> bool \<Rightarrow> bool \<Rightarrow> int \<Rightarrow> track list
     \<Rightarrow> int set \<times> 's frame \<Rightarrow> py_error + (int set \<times> 's frame)" where
  "track_loop labels boxes classes ld epo pci [] s = Inr s"
| "track_loop labels boxes classes ld epo pci (t # rest) s =
     (case track_step labels boxes classes ld epo pci t s of
        Inl e \<Rightarrow> Inl e
      | Inr s' \<Rightarrow> track_loop labels boxes classes ld epo pci rest s')"

text \<open>The loop of the path without a tracker: every kept detection is drawn.\<close>

fun raw_loop ::
  "string list \<Rightarrow> (real list \<times> real \<times> nat) list \<Rightarrow> 's frame \<Rightarrow> py_error + 's frame" where
  "raw_loop labels [] fr = Inr fr"
| "raw_loop labels ((box, sc, cls) # rest) fr =
     (if length labels \<le> cls then Inl IndexError
      else
        (case draw_detection box [ClassLabel (labels ! cls)] (sc * 100) (IdToColor cls) False None of
           Inl e \<Rightarrow> Inl e
         | Inr d \<Rightarrow> raw_loop labels rest (fr\<lparr>fr_drawn := fr_drawn fr @ [d]\<rparr>)))"

text \<open>
  \<open>draw_detections(detections, img_out, labels, tracker, speed_manager, target_labels,
  loitering_detection, loitering_manager, loitering_threshold, enable_person_only,
  person_class_index)\<close>. The tracker is an object outside the sources; for one frame it is
  the function \<open>tracker.update\<close> from the rows \<open>[*box, score]\<close> to the tracks it returns.
  The parameter \<open>loitering_threshold\<close> is not read by the function and is left out. The
  image is what \<open>fr_drawn\<close> records. With a tracker and no kept detection the function
  returns at once, before \<open>update_frame_count\<close>.
\<close>

definition draw_detections ::
  "detections \<Rightarrow> string list \<Rightarrow> (real list list \<Rightarrow> track list) option \<Rightarrow> 's speed_manager option
     \<Rightarrow> string list option \<Rightarrow> bool \<Rightarrow> loitering_manager option \<Rightarrow> bool \<Rightarrow> int
     \<Rightarrow> py_error + 's frame" where
  "draw_detections dets labels tracker speed_mgr target_labels loitering_detection
       loitering_mgr enable_person_only person_class_index =
     (let tci = target_class_indices labels (default_target_labels target_labels);
          fr0 = \<lparr> fr_manager = loitering_mgr, fr_speed = speed_mgr,
                  fr_calls = [], fr_drawn = [] \<rparr>
      in case target_filter_loop tci (detection_boxes dets) (detection_scores dets)
                (detection_classes dets) [0..<num_detections dets] of
           Inl e \<Rightarrow> Inl e
         | Inr kept \<Rightarrow>
             (case tracker of
                Some tracker_update \<Rightarrow>
                  (let dets_for_tracker = map (\<lambda>(box, sc, cls). box @ [sc]) kept
                   in if dets_for_tracker = [] then Inr fr0
                      else
                        (let online_targets = tracker_update dets_for_tracker;
                             fr1 = (case loitering_mgr of
                                      Some m \<Rightarrow>
                                        fr0\<lparr> fr_manager := Some (update_frame_count m),
                                             fr_calls := [UpdateFrameCount] \<rparr>
                                    | None \<Rightarrow> fr0)
                         in case track_loop labels (map fst kept) (map (\<lambda>k. snd (snd k)) kept)
                                   loitering_detection enable_person_only person_class_index
                                   online_targets ({}, fr1) of
                              Inl e \<Rightarrow> Inl e
                            | Inr (current_track_ids, fr2) \<Rightarrow>
                                Inr (case fr_manager fr2 of
                                       Some m \<Rightarrow>
                                         fr2\<lparr> fr_manager :=
                                                 Some (cleanup_missing_tracks m current_track_ids),
                                              fr_calls := fr_calls fr2
                                                 @ [CleanupMissingTracks current_track_ids] \<rparr>
                                     | None \<Rightarrow> fr2)))
              | None \<Rightarrow> raw_loop labels kept fr0))"

text \<open>
  For running the orchestrator on a concrete frame: a tracker whose \<open>update\<close> answers with
  the given tracks whatever rows it receives.
\<close>

definition constant_tracker :: "track list \<Rightarrow> real list list \<Rightarrow> track list" where
  "constant_tracker ts rows = ts"

section \<open>Properties of the loitering manager\<close>

lemma is_loitering_fst: "fst (is_loitering st k) = st"
  by (auto simp: is_loitering_def defaultdict_getitem_def Let_def split: option.splits)

lemma is_loitering_snd:
  "snd (is_loitering st k) =
     (\<exists>s. track_start_frames st k = Some s \<and> real_of_int (current_frame st - s) > frame_threshold st)"
  by (auto simp: is_loitering_def defaultdict_getitem_def Let_def split: option.splits)

lemma lm_step_frame_threshold: "frame_threshold (lm_step c st) = frame_threshold st"
  by (cases c)
     (simp_all add: update_frame_count_def update_track_def is_loitering_fst
        cleanup_missing_tracks_def Let_def)

lemma lm_run_frame_threshold: "frame_threshold (lm_run cs st) = frame_threshold st"
  unfolding lm_run_def
  by (induction cs arbitrary: st) (simp_all add: lm_step_frame_threshold)

lemma cleanup_lookup:
  "track_start_frames (cleanup_missing_tracks st ids) k =
     (if k \<in> ids then track_start_frames st k else None)"
  by (auto simp: cleanup_missing_tracks_def Let_def restrict_map_def)

lemma lm_step_current_frame: "current_frame st \<le> current_frame (lm_step c st)"
  by (cases c)
     (simp_all add: update_frame_count_def update_track_def is_loitering_fst
        cleanup_missing_tracks_def Let_def)

lemma lm_step_keeps_start:
  assumes "track_start_frames st k = Some s" and "kept_by k c"
  shows "track_start_frames (lm_step c st) k = Some s"
  using assms
  by (cases c)
     (auto simp: update_frame_count_def update_track_def is_loitering_fst cleanup_lookup)

lemma lm_run_keeps_start:
  assumes "track_start_frames st k = Some s" and "list_all (kept_by k) cs"
  shows "track_start_frames (lm_run cs st) k = Some s"
  using assms unfolding lm_run_def
  by (induction cs arbitrary: st) (simp_all add: lm_step_keeps_start)

lemma lm_run_current_frame: "current_frame st \<le> current_frame (lm_run cs st)"
  unfolding lm_run_def
proof (induction cs arbitrary: st)
  case Nil
  show ?case by simp
next
  case (Cons c cs)
  have "current_frame st \<le> current_frame (lm_step c st)"
    by (rule lm_step_current_frame)
  also have "\<dots> \<le> current_frame (fold lm_step cs (lm_step c st))"
    by (rule Cons.IH)
  finally show ?case by simp
qed


subsection \<open>Claim C3: when a track is loitering\<close>

text \<open>
  C3. For every manager built by \<open>__init__\<close> with threshold \<open>thr\<close> and frame rate
  \<open>fps\<close> and then driven through any sequence of method calls, and for every track id,
  \<open>is_loitering\<close> answers true exactly when the track id has a recorded start frame and
  the current frame minus that start frame is greater than \<open>thr * fps\<close>; for a track id
  with no recorded start frame the call returns false and does not fail.
\<close>

theorem is_loitering_iff_threshold:
  "(let st = lm_run cs (LoiteringDetectionManager_init thr fps) in
      (snd (is_loitering st k) \<longleftrightarrow>
         (\<exists>s. track_start_frames st k = Some s \<and> real_of_int (current_frame st - s) > thr * fps))
      \<and> (track_start_frames st k = None \<longrightarrow> is_loitering st k = (st, False)))"
proof -
  define st where "st = lm_run cs (LoiteringDetectionManager_init thr fps)"
  have thr: "frame_threshold st = thr * fps"
    unfolding st_def by (simp add: lm_run_frame_threshold LoiteringDetectionManager_init_def)
  have a: "snd (is_loitering st k) \<longleftrightarrow>
      (\<exists>s. track_start_frames st k = Some s \<and> real_of_int (current_frame st - s) > thr * fps)"
    by (simp only: is_loitering_snd thr)
  have b: "track_start_frames st k = None \<longrightarrow> is_loitering st k = (st, False)"
    by (auto simp: is_loitering_def)
  from a b show ?thesis
    unfolding st_def [symmetric] Let_def by blast
qed

lemmas lm_eval =
  lm_run_def LoiteringDetectionManager_init_def update_frame_count_def update_track_def
  is_loitering_def defaultdict_getitem_def cleanup_missing_tracks_def Let_def

theorem is_loitering_iff_threshold_witness:
  "snd (is_loitering
     (lm_run [UpdateFrameCount, UpdateTrack 7, UpdateFrameCount, UpdateFrameCount, UpdateFrameCount]
        (LoiteringDetectionManager_init 1 2)) 7)
   \<and> \<not> snd (is_loitering
     (lm_run [UpdateFrameCount, UpdateTrack 7, UpdateFrameCount, UpdateFrameCount]
        (LoiteringDetectionManager_init 1 2)) 7)
   \<and> snd (is_loitering
     (lm_run [UpdateFrameCount, UpdateTrack 7, UpdateFrameCount]
        (LoiteringDetectionManager_init 1 2)) 8) = False"
proof -
  let ?i = "LoiteringDetectionManager_init 1 2"
  let ?a = "lm_run [UpdateFrameCount, UpdateTrack 7, UpdateFrameCount, UpdateFrameCount, UpdateFrameCount] ?i"
  let ?b = "lm_run [UpdateFrameCount, UpdateTrack 7, UpdateFrameCount, UpdateFrameCount] ?i"
  let ?c = "lm_run [UpdateFrameCount, UpdateTrack 7, UpdateFrameCount] ?i"
  have a: "track_start_frames ?a 7 = Some 1" "current_frame ?a = 4"
    by (simp_all add: lm_eval)
  have b: "track_start_frames ?b 7 = Some 1" "current_frame ?b = 3"
    by (simp_all add: lm_eval)
  have c: "track_start_frames ?c 8 = None"
    by (simp add: lm_eval)
  have "snd (is_loitering ?a 7)"
    using is_loitering_iff_threshold [of "[UpdateFrameCount, UpdateTrack 7, UpdateFrameCount, UpdateFrameCount, UpdateFrameCount]" 1 2 7] a
    unfolding Let_def by simp
  moreover have "\<not> snd (is_loitering ?b 7)"
    using is_loitering_iff_threshold [of "[UpdateFrameCount, UpdateTrack 7, UpdateFrameCount, UpdateFrameCount]" 1 2 7] b
    unfolding Let_def by simp
  moreover have "snd (is_loitering ?c 8) = False"
    using is_loitering_iff_threshold [of "[UpdateFrameCount, UpdateTrack 7, UpdateFrameCount]" 1 2 8] c
    unfolding Let_def by simp
  ultimately show ?thesis by blast
qed

subsection \<open>Claim C10: the query does not change the manager\<close>

text \<open>
  C10. \<open>is_loitering\<close> is a pure query: for every manager and every track id, recorded or
  not, the manager after the call is the manager before it. In particular
  \<open>track_start_frames\<close> has the same keys and values and \<open>current_frame\<close> is the same:
  the \<open>defaultdict\<close> is read only for a key that the membership test has found, so no
  entry is inserted.
\<close>

theorem is_loitering_pure:
  "fst (is_loitering st k) = st
   \<and> track_start_frames (fst (is_loitering st k)) = track_start_frames st
   \<and> dom (track_start_frames (fst (is_loitering st k))) = dom (track_start_frames st)
   \<and> current_frame (fst (is_loitering st k)) = current_frame st"
  by (simp add: is_loitering_fst)


subsection \<open>Claim C6: what the cleanup removes\<close>

lemma funpow_update_frame_count:
  "(update_frame_count ^^ n) st = st\<lparr>current_frame := current_frame st + int n\<rparr>"
  by (induction n) (simp_all add: update_frame_count_def)

text \<open>
  C6. For every manager and every set of active track ids, \<open>cleanup_missing_tracks\<close>
  removes exactly the recorded track ids that are absent from the set: the dictionary
  afterwards is the dictionary before restricted to the set, so a recorded id of the set
  keeps its start frame, and no other field of the manager changes. Observing a removed
  track id again, after any number of further frames, records the current frame of that
  moment as its start frame.
\<close>

theorem cleanup_removes_exactly_absent:
  "cleanup_missing_tracks st ids = st\<lparr>track_start_frames := track_start_frames st |` ids\<rparr>
   \<and> dom (track_start_frames (cleanup_missing_tracks st ids)) = dom (track_start_frames st) \<inter> ids
   \<and> (k \<in> ids \<longrightarrow>
        track_start_frames (cleanup_missing_tracks st ids) k = track_start_frames st k)
   \<and> (k \<notin> ids \<longrightarrow>
        track_start_frames (cleanup_missing_tracks st ids) k = None
        \<and> track_start_frames
            (update_track ((update_frame_count ^^ n) (cleanup_missing_tracks st ids)) k) k
          = Some (current_frame st + int n))"
proof -
  have m: "track_start_frames st |` (- {t \<in> dom (track_start_frames st). t \<notin> ids})
           = track_start_frames st |` ids"
    by (rule ext) (auto simp: restrict_map_def)
  have eq: "cleanup_missing_tracks st ids = st\<lparr>track_start_frames := track_start_frames st |` ids\<rparr>"
    by (simp add: cleanup_missing_tracks_def Let_def m)
  have d: "dom (track_start_frames (cleanup_missing_tracks st ids)) = dom (track_start_frames st) \<inter> ids"
    by (simp add: eq)
  have again: "track_start_frames
            (update_track ((update_frame_count ^^ n) (cleanup_missing_tracks st ids)) k) k
          = Some (current_frame st + int n)" if "k \<notin> ids"
    using that by (simp add: eq funpow_update_frame_count update_track_def dom_def restrict_map_def)
  show ?thesis
    using eq d again by (simp add: cleanup_lookup)
qed

theorem cleanup_removes_exactly_absent_witness:
  "track_start_frames
     (cleanup_missing_tracks
        (lm_run [UpdateFrameCount, UpdateTrack 1, UpdateFrameCount, UpdateTrack 2]
           (LoiteringDetectionManager_init 1 2)) {1, 3}) 1 = Some 1
   \<and> track_start_frames
     (cleanup_missing_tracks
        (lm_run [UpdateFrameCount, UpdateTrack 1, UpdateFrameCount, UpdateTrack 2]
           (LoiteringDetectionManager_init 1 2)) {1, 3}) 2 = None
   \<and> track_start_frames
       (update_track ((update_frame_count ^^ 3)
          (cleanup_missing_tracks
             (lm_run [UpdateFrameCount, UpdateTrack 1, UpdateFrameCount, UpdateTrack 2]
                (LoiteringDetectionManager_init 1 2)) {1, 3})) 2) 2 = Some 5"
proof -
  let ?st = "lm_run [UpdateFrameCount, UpdateTrack 1, UpdateFrameCount, UpdateTrack 2]
               (LoiteringDetectionManager_init 1 2)"
  have st: "track_start_frames ?st 1 = Some 1" "current_frame ?st = 2"
    by (simp_all add: lm_eval)
  have in1: "(1::int) \<in> {1, 3}" and out2: "(2::int) \<notin> {1, 3}"
    by simp_all
  have keep: "track_start_frames (cleanup_missing_tracks ?st {1, 3}) 1 = track_start_frames ?st 1"
    using cleanup_removes_exactly_absent [of ?st "{1, 3}" 1 0] in1 by blast
  have gone: "track_start_frames (cleanup_missing_tracks ?st {1, 3}) 2 = None
     \<and> track_start_frames
         (update_track ((update_frame_count ^^ 3) (cleanup_missing_tracks ?st {1, 3})) 2) 2
       = Some (current_frame ?st + int 3)"
    using cleanup_removes_exactly_absent [of ?st "{1, 3}" 2 3] out2 by blast
  have five: "current_frame ?st + int 3 = 5"
    by (simp only: st)
  show ?thesis
    using keep gone st(1) five by simp
qed

subsection \<open>Claim C7: observing a recorded track changes nothing\<close>

text \<open>
  C7. \<open>update_track\<close> is idempotent after the first call: on a manager in which the track
  id already has a start frame the call returns the manager unchanged, so a second call
  right after a first one changes nothing; and through any sequence of calls whose
  cleanups all keep the track id, the start frame stays the one first recorded.
\<close>

theorem update_track_idempotent:
  "(track_start_frames st k = Some s \<longrightarrow> update_track st k = st)
   \<and> update_track (update_track st k) k = update_track st k
   \<and> (track_start_frames st k = Some s \<and> list_all (kept_by k) cs \<longrightarrow>
        track_start_frames (lm_run cs st) k = Some s)"
proof -
  have a: "update_track st k = st" if "track_start_frames st k = Some s"
    using that by (simp add: update_track_def dom_def)
  have b: "update_track (update_track st k) k = update_track st k"
    by (simp add: update_track_def dom_def)
  show ?thesis
    using a b lm_run_keeps_start by blast
qed

theorem update_track_idempotent_witness:
  "update_track
     (lm_run [UpdateFrameCount, UpdateTrack 7, UpdateFrameCount] (LoiteringDetectionManager_init 1 2)) 7
   = lm_run [UpdateFrameCount, UpdateTrack 7, UpdateFrameCount] (LoiteringDetectionManager_init 1 2)
   \<and> track_start_frames
       (lm_run [UpdateFrameCount, UpdateTrack 7, CleanupMissingTracks {7}, IsLoitering 7]
          (lm_run [UpdateFrameCount, UpdateTrack 7, UpdateFrameCount]
             (LoiteringDetectionManager_init 1 2))) 7 = Some 1"
proof -
  let ?st = "lm_run [UpdateFrameCount, UpdateTrack 7, UpdateFrameCount]
               (LoiteringDetectionManager_init 1 2)"
  let ?cs = "[UpdateFrameCount, UpdateTrack 7, CleanupMissingTracks {7}, IsLoitering 7]"
  have st: "track_start_frames ?st 7 = Some 1"
    by (simp add: lm_eval)
  have cs: "list_all (kept_by 7) ?cs"
    by simp
  show ?thesis
    using update_track_idempotent [of ?st 7 1 ?cs] st cs by blast
qed

subsection \<open>Claim C8: loitering starts false and never reverts\<close>

text \<open>
  C8. Right after the first \<open>update_track\<close> of a track id (one with no start frame yet),
  \<open>is_loitering\<close> answers false, provided the frame threshold is not negative. Through any
  later sequence of calls in which every cleanup keeps the track id (frames advancing,
  the track observed and queried), \<open>is_loitering\<close> is monotone: once it has answered true
  it answers true at every later point of the sequence.
\<close>

theorem is_loitering_monotone:
  "(k \<notin> dom (track_start_frames st) \<and> 0 \<le> frame_threshold st \<longrightarrow>
        \<not> snd (is_loitering (update_track st k) k))
   \<and> (snd (is_loitering st k) \<and> list_all (kept_by k) cs \<longrightarrow>
        snd (is_loitering (lm_run cs st) k))"
proof -
  have first: "\<not> snd (is_loitering (update_track st k) k)"
    if "k \<notin> dom (track_start_frames st)" and "0 \<le> frame_threshold st"
    using that by (simp add: is_loitering_snd update_track_def)
  have later: "snd (is_loitering (lm_run cs st) k)"
    if l: "snd (is_loitering st k)" and c: "list_all (kept_by k) cs"
  proof -
    from l obtain s where s: "track_start_frames st k = Some s"
      and gt: "real_of_int (current_frame st - s) > frame_threshold st"
      by (auto simp: is_loitering_snd)
    have s': "track_start_frames (lm_run cs st) k = Some s"
      using s c by (rule lm_run_keeps_start)
    have "current_frame st - s \<le> current_frame (lm_run cs st) - s"
      using lm_run_current_frame [of st cs] by simp
    then have "real_of_int (current_frame st - s) \<le> real_of_int (current_frame (lm_run cs st) - s)"
      by (simp only: of_int_le_iff)
    with gt have "real_of_int (current_frame (lm_run cs st) - s) > frame_threshold (lm_run cs st)"
      by (simp add: lm_run_frame_threshold)
    with s' show ?thesis
      by (simp add: is_loitering_snd)
  qed
  show ?thesis
    using first later by blast
qed

theorem is_loitering_monotone_witness:
  "\<not> snd (is_loitering
       (update_track (lm_run [UpdateFrameCount] (LoiteringDetectionManager_init 1 2)) 7) 7)
   \<and> snd (is_loitering
       (lm_run [UpdateFrameCount, UpdateTrack 7, IsLoitering 7, CleanupMissingTracks {7, 9}]
          (lm_run [UpdateFrameCount, UpdateTrack 7, UpdateFrameCount, UpdateFrameCount, UpdateFrameCount]
             (LoiteringDetectionManager_init 1 2))) 7)"
proof -
  let ?s0 = "lm_run [UpdateFrameCount] (LoiteringDetectionManager_init 1 2)"
  let ?s1 = "lm_run [UpdateFrameCount, UpdateTrack 7, UpdateFrameCount, UpdateFrameCount, UpdateFrameCount]
               (LoiteringDetectionManager_init 1 2)"
  let ?cs = "[UpdateFrameCount, UpdateTrack 7, IsLoitering 7, CleanupMissingTracks {7, 9}]"
  have h0: "7 \<notin> dom (track_start_frames ?s0)" "0 \<le> frame_threshold ?s0"
    by (simp_all add: lm_eval)
  have h1: "snd (is_loitering ?s1 7)"
    by (simp add: lm_eval)
  have cs: "list_all (kept_by 7) ?cs"
    by simp
  have "\<not> snd (is_loitering (update_track ?s0 7) 7)"
    using is_loitering_monotone [of 7 ?s0 "[]"] h0 by blast
  moreover have "snd (is_loitering (lm_run ?cs ?s1) 7)"
    using is_loitering_monotone [of 7 ?s1 ?cs] h1 cs by blast
  ultimately show ?thesis by blast
qed


section \<open>Properties of the geometry\<close>

lemma inter_le_area:
  fixes a0 a1 a2 a3 b0 b1 b2 b3 e :: real
  assumes "0 < e"
  shows "max 0 (min a2 b2 - max a0 b0) * max 0 (min a3 b3 - max a1 b1)
         \<le> max e ((a2 - a0) * (a3 - a1))"
proof (cases "0 < min a2 b2 - max a0 b0 \<and> 0 < min a3 b3 - max a1 b1")
  case True
  then have w: "0 < min a2 b2 - max a0 b0" and h: "0 < min a3 b3 - max a1 b1" by auto
  have w': "min a2 b2 - max a0 b0 \<le> a2 - a0" by auto
  have h': "min a3 b3 - max a1 b1 \<le> a3 - a1" by auto
  have "(min a2 b2 - max a0 b0) * (min a3 b3 - max a1 b1) \<le> (a2 - a0) * (a3 - a1)"
    using w h w' h' by (intro mult_mono) auto
  moreover have "max 0 (min a2 b2 - max a0 b0) = min a2 b2 - max a0 b0"
    using w by (simp only: max_def) simp
  moreover have "max 0 (min a3 b3 - max a1 b1) = min a3 b3 - max a1 b1"
    using h by (simp only: max_def) simp
  ultimately show ?thesis by (simp only: le_max_iff_disj) simp
next
  case False
  then have "max 0 (min a2 b2 - max a0 b0) = 0 \<or> max 0 (min a3 b3 - max a1 b1) = 0"
    by (auto simp only: max_def split: if_splits)
  then have "max 0 (min a2 b2 - max a0 b0) * max 0 (min a3 b3 - max a1 b1) = 0"
    by (simp only: mult_eq_0_iff)
  moreover have "0 \<le> max e ((a2 - a0) * (a3 - a1))"
    using assms by (simp only: le_max_iff_disj) simp
  ultimately show ?thesis by (simp only:)
qed

lemma inter_le_area':
  fixes a0 a1 a2 a3 b0 b1 b2 b3 e :: real
  assumes "0 < e"
  shows "max 0 (min a2 b2 - max a0 b0) * max 0 (min a3 b3 - max a1 b1)
         \<le> max e ((b2 - b0) * (b3 - b1))"
proof -
  have "max 0 (min b2 a2 - max b0 a0) * max 0 (min b3 a3 - max b1 a1)
         \<le> max e ((b2 - b0) * (b3 - b1))"
    using assms by (rule inter_le_area)
  then show ?thesis by (simp only: min.commute max.commute)
qed

lemma ratio_bounds:
  fixes i d :: real
  assumes "0 \<le> i" and "i < d"
  shows "0 \<le> i / d \<and> i / d < 1"
  using assms by simp

lemma compute_iou_range:
  assumes "4 \<le> length boxA" "4 \<le> length boxB"
  shows "\<exists>v. compute_iou boxA boxB = Inr v \<and> 0 \<le> v \<and> v < 1"
proof -
  let ?inter = "max 0 (min (boxA ! 2) (boxB ! 2) - max (boxA ! 0) (boxB ! 0))
      * max 0 (min (boxA ! 3) (boxB ! 3) - max (boxA ! 1) (boxB ! 1))"
  let ?areaA = "max (1 / 100000) ((boxA ! 2 - boxA ! 0) * (boxA ! 3 - boxA ! 1))"
  let ?areaB = "max (1 / 100000) ((boxB ! 2 - boxB ! 0) * (boxB ! 3 - boxB ! 1))"
  let ?denom = "?areaA + ?areaB - ?inter + 1 / 100000"
  have i0: "0 \<le> ?inter" by (intro mult_nonneg_nonneg) auto
  have iA: "?inter \<le> ?areaA" by (rule inter_le_area) simp
  have iB: "?inter \<le> ?areaB" by (rule inter_le_area') simp
  have aB: "1 / 100000 \<le> ?areaB" by simp
  have d: "?inter < ?denom" using iA iB aB i0 by linarith
  have n: "\<not> (length boxA < 4 \<or> length boxB < 4)" using assms by auto
  have dz: "?denom \<noteq> 0" using d i0 by linarith
  have eq: "compute_iou boxA boxB = Inr (?inter / ?denom)"
    unfolding compute_iou_def Let_def using n dz by (simp only: if_False)
  have "0 \<le> ?inter / ?denom \<and> ?inter / ?denom < 1" using i0 d by (rule ratio_bounds)
  then show ?thesis using eq by blast
qed


lemma compute_iou_no_overlap:
  assumes "4 \<le> length boxA" "4 \<le> length boxB"
    and "min (boxA ! 2) (boxB ! 2) \<le> max (boxA ! 0) (boxB ! 0)
         \<or> min (boxA ! 3) (boxB ! 3) \<le> max (boxA ! 1) (boxB ! 1)"
  shows "compute_iou boxA boxB = Inr 0"
proof -
  let ?inter = "max 0 (min (boxA ! 2) (boxB ! 2) - max (boxA ! 0) (boxB ! 0))
      * max 0 (min (boxA ! 3) (boxB ! 3) - max (boxA ! 1) (boxB ! 1))"
  let ?areaA = "max (1 / 100000) ((boxA ! 2 - boxA ! 0) * (boxA ! 3 - boxA ! 1))"
  let ?areaB = "max (1 / 100000) ((boxB ! 2 - boxB ! 0) * (boxB ! 3 - boxB ! 1))"
  let ?denom = "?areaA + ?areaB - ?inter + 1 / 100000"
  have "max 0 (min (boxA ! 2) (boxB ! 2) - max (boxA ! 0) (boxB ! 0)) = 0
        \<or> max 0 (min (boxA ! 3) (boxB ! 3) - max (boxA ! 1) (boxB ! 1)) = 0"
    using assms(3) by (auto simp only: max_def split: if_splits)
  then have i: "?inter = 0" by (simp only: mult_eq_0_iff)
  have aA: "1 / 100000 \<le> ?areaA" by simp
  have aB: "1 / 100000 \<le> ?areaB" by simp
  have dz: "?denom \<noteq> 0" using i aA aB by linarith
  have n: "\<not> (length boxA < 4 \<or> length boxB < 4)" using assms by auto
  have "compute_iou boxA boxB = Inr (?inter / ?denom)"
    unfolding compute_iou_def Let_def using n dz by (simp only: if_False)
  then show ?thesis by (simp only: i) simp
qed

lemma compute_iou_self:
  assumes "4 \<le> length A" and "A ! 0 < A ! 2" and "A ! 1 < A ! 3"
    and "1 / 100000 \<le> (A ! 2 - A ! 0) * (A ! 3 - A ! 1)"
  shows "compute_iou A A =
           Inr ((A ! 2 - A ! 0) * (A ! 3 - A ! 1) / ((A ! 2 - A ! 0) * (A ! 3 - A ! 1) + 1 / 100000))"
proof -
  let ?a = "(A ! 2 - A ! 0) * (A ! 3 - A ! 1)"
  let ?inter = "max 0 (min (A ! 2) (A ! 2) - max (A ! 0) (A ! 0))
      * max 0 (min (A ! 3) (A ! 3) - max (A ! 1) (A ! 1))"
  let ?area = "max (1 / 100000) ?a"
  let ?denom = "?area + ?area - ?inter + 1 / 100000"
  have i: "?inter = ?a" using assms(2,3) by (simp add: max_def)
  have ar: "?area = ?a" using assms(4) by (simp add: max_def)
  have d: "?denom = ?a + 1 / 100000" by (simp only: i ar)
  have dz: "?denom \<noteq> 0" using d assms(4) by linarith
  have n: "\<not> (length A < 4 \<or> length A < 4)" using assms(1) by auto
  have "compute_iou A A = Inr (?inter / ?denom)"
    unfolding compute_iou_def Let_def using n dz by (simp only: if_False)
  then show ?thesis unfolding i ar by simp
qed

lemma self_ratio_close:
  fixes a :: real
  assumes "1 \<le> a"
  shows "1 - 1 / 100000 < a / (a + 1 / 100000) \<and> a / (a + 1 / 100000) < 1"
proof -
  have p: "0 < a + 1 / 100000" using assms by linarith
  have "(1 - 1 / 100000) * (a + 1 / 100000) < a" using assms by (simp add: algebra_simps)
  then have "1 - 1 / 100000 < a / (a + 1 / 100000)" using p by (simp add: pos_less_divide_eq)
  moreover have "a / (a + 1 / 100000) < 1" using p by simp
  ultimately show ?thesis by blast
qed

lemma compute_iou_value:
  assumes "4 \<le> length boxA" "4 \<le> length boxB"
  shows "compute_iou boxA boxB = Inr (iou_value boxA boxB)"
    and "0 \<le> iou_value boxA boxB" and "iou_value boxA boxB < 1"
proof -
  obtain v where v: "compute_iou boxA boxB = Inr v" "0 \<le> v" "v < 1"
    using compute_iou_range [OF assms] by blast
  then have "iou_value boxA boxB = v" by (simp add: iou_value_def)
  with v show "compute_iou boxA boxB = Inr (iou_value boxA boxB)"
    and "0 \<le> iou_value boxA boxB" and "iou_value boxA boxB < 1" by simp_all
qed


subsection \<open>Claim C9: range and special values of the IoU\<close>

text \<open>
  C9 (amended). For every pair of boxes with four coordinates each, \<open>compute_iou\<close>
  returns a number (the denominator is never zero) that lies in \<open>[0, 1]\<close>. When the
  boxes have zero or negative overlap on either axis the result is \<open>0\<close>. For a box \<open>A\<close>
  of positive width and height whose area is at least \<open>1\<close> (every non-degenerate box
  with integer pixel coordinates), \<open>compute_iou A A\<close> is at most \<open>1\<close> and within \<open>1e-5\<close>
  of it.
\<close>

theorem compute_iou_bounds:
  assumes "4 \<le> length boxA" and "4 \<le> length boxB"
  shows "(\<exists>v. compute_iou boxA boxB = Inr v \<and> 0 \<le> v \<and> v \<le> 1)
       \<and> (min (boxA ! 2) (boxB ! 2) \<le> max (boxA ! 0) (boxB ! 0)
            \<or> min (boxA ! 3) (boxB ! 3) \<le> max (boxA ! 1) (boxB ! 1)
          \<longrightarrow> compute_iou boxA boxB = Inr 0)
       \<and> (boxA ! 0 < boxA ! 2 \<and> boxA ! 1 < boxA ! 3
            \<and> 1 \<le> (boxA ! 2 - boxA ! 0) * (boxA ! 3 - boxA ! 1)
          \<longrightarrow> (\<exists>v. compute_iou boxA boxA = Inr v \<and> 1 - 1 / 100000 < v \<and> v \<le> 1))"
proof (intro conjI impI)
  obtain v where "compute_iou boxA boxB = Inr v" "0 \<le> v" "v < 1"
    using compute_iou_range [OF assms] by blast
  then show "\<exists>v. compute_iou boxA boxB = Inr v \<and> 0 \<le> v \<and> v \<le> 1"
    by (intro exI [of _ v]) simp
next
  assume "min (boxA ! 2) (boxB ! 2) \<le> max (boxA ! 0) (boxB ! 0)
            \<or> min (boxA ! 3) (boxB ! 3) \<le> max (boxA ! 1) (boxB ! 1)"
  with assms show "compute_iou boxA boxB = Inr 0"
    by (rule compute_iou_no_overlap)
next
  let ?a = "(boxA ! 2 - boxA ! 0) * (boxA ! 3 - boxA ! 1)"
  assume h: "boxA ! 0 < boxA ! 2 \<and> boxA ! 1 < boxA ! 3 \<and> 1 \<le> ?a"
  then have big: "1 / 100000 \<le> ?a" by linarith
  have "compute_iou boxA boxA = Inr (?a / (?a + 1 / 100000))"
    using assms(1) h big by (intro compute_iou_self) auto
  moreover have "1 - 1 / 100000 < ?a / (?a + 1 / 100000) \<and> ?a / (?a + 1 / 100000) < 1"
    using h by (intro self_ratio_close) auto
  then have "1 - 1 / 100000 < ?a / (?a + 1 / 100000) \<and> ?a / (?a + 1 / 100000) \<le> 1"
    by linarith
  ultimately show "\<exists>v. compute_iou boxA boxA = Inr v \<and> 1 - 1 / 100000 < v \<and> v \<le> 1"
    by blast
qed

theorem compute_iou_bounds_witness:
  "(\<exists>v. compute_iou [0, 0, 10, 10] [5, 5, 15, 15] = Inr v \<and> 0 \<le> v \<and> v \<le> 1)
   \<and> compute_iou [0, 0, 10, 10] [20, 20, 30, 30] = Inr 0
   \<and> (\<exists>v. compute_iou [0, 0, 10, 10] [0, 0, 10, 10] = Inr v \<and> 1 - 1 / 100000 < v \<and> v \<le> 1)"
proof -
  have l: "4 \<le> length [0, 0, 10, 10 :: real]" "4 \<le> length [5, 5, 15, 15 :: real]"
    "4 \<le> length [20, 20, 30, 30 :: real]"
    by simp_all
  have apart: "min ([0, 0, 10, 10 :: real] ! 2) ([20, 20, 30, 30] ! 2)
                 \<le> max ([0, 0, 10, 10] ! 0) ([20, 20, 30, 30] ! 0)"
    by simp
  have big: "[0, 0, 10, 10 :: real] ! 0 < [0, 0, 10, 10] ! 2
      \<and> [0, 0, 10, 10 :: real] ! 1 < [0, 0, 10, 10] ! 3
      \<and> 1 \<le> ([0, 0, 10, 10 :: real] ! 2 - [0, 0, 10, 10] ! 0)
               * ([0, 0, 10, 10] ! 3 - [0, 0, 10, 10] ! 1)"
    by simp
  have a: "\<exists>v. compute_iou [0, 0, 10, 10] [5, 5, 15, 15] = Inr v \<and> 0 \<le> v \<and> v \<le> 1"
    using compute_iou_bounds [OF l(1) l(2)] by blast
  have b: "compute_iou [0, 0, 10, 10] [20, 20, 30, 30] = Inr 0"
    using compute_iou_bounds [OF l(1) l(3)] apart by blast
  have c: "\<exists>v. compute_iou [0, 0, 10, 10] [0, 0, 10, 10] = Inr v \<and> 1 - 1 / 100000 < v \<and> v \<le> 1"
    using compute_iou_bounds [OF l(1) l(1)] big by blast
  from a b c show ?thesis by blast
qed

text \<open>
  C9 as stated fails for small boxes: the box with corners \<open>(0, 0)\<close> and
  \<open>(0.001, 0.001)\<close> has positive width and height, and its IoU with itself is
  \<open>1 / 29\<close>, since both areas are raised to the floor \<open>1e-5\<close> while the intersection
  keeps its true area \<open>1e-6\<close>.
\<close>

theorem compute_iou_self_small_counterexample:
  "compute_iou [0, 0, 1 / 1000, 1 / 1000] [0, 0, 1 / 1000, 1 / 1000] = Inr (1 / 29)"
  by (simp add: compute_iou_def Let_def)


section \<open>Properties of the track matcher\<close>

lemma find_best_loop_spec:
  assumes "4 \<le> length t" and "\<forall>d\<in>set ds. 4 \<le> length d"
  shows "(list_all (\<lambda>d. iou_value t d \<le> b) ds \<and> find_best_loop t ds i b k = Inr (b, k))
       \<or> (\<exists>pre x post. ds = pre @ x # post
            \<and> find_best_loop t ds i b k = Inr (iou_value t x, i + int (length pre))
            \<and> b < iou_value t x
            \<and> (\<forall>y\<in>set pre. iou_value t y < iou_value t x)
            \<and> (\<forall>y\<in>set post. iou_value t y \<le> iou_value t x))"
  using assms(2)
proof (induction ds arbitrary: i b k)
  case Nil
  show ?case by simp
next
  case (Cons d ds)
  have c: "compute_iou t d = Inr (iou_value t d)"
    using assms(1) Cons.prems by (simp add: compute_iou_value(1))
  have rest: "\<forall>d\<in>set ds. 4 \<le> length d"
    using Cons.prems by simp
  define v where "v = iou_value t d"
  have c': "compute_iou t d = Inr v" using c v_def by simp
  show ?case
  proof (cases "b < v")
    case True
    then have step: "find_best_loop t (d # ds) i b k = find_best_loop t ds (i + 1) v i"
      by (simp add: c')
    from Cons.IH [OF rest, of v "i + 1" i]
    consider (none) "list_all (\<lambda>d. iou_value t d \<le> v) ds"
        "find_best_loop t ds (i + 1) v i = Inr (v, i)"
      | (some) pre x post where "ds = pre @ x # post"
        "find_best_loop t ds (i + 1) v i = Inr (iou_value t x, i + 1 + int (length pre))"
        "v < iou_value t x"
        "\<forall>y\<in>set pre. iou_value t y < iou_value t x"
        "\<forall>y\<in>set post. iou_value t y \<le> iou_value t x"
      by blast
    then show ?thesis
    proof cases
      case none
      have "d # ds = [] @ d # ds
          \<and> find_best_loop t (d # ds) i b k = Inr (iou_value t d, i + int (length ([]::real list list)))
          \<and> b < iou_value t d
          \<and> (\<forall>y\<in>set []. iou_value t y < iou_value t d)
          \<and> (\<forall>y\<in>set ds. iou_value t y \<le> iou_value t d)"
        using step none True by (simp add: list_all_iff v_def)
      then show ?thesis by (intro disjI2 exI)
    next
      case some
      have "d # ds = (d # pre) @ x # post
          \<and> find_best_loop t (d # ds) i b k = Inr (iou_value t x, i + int (length (d # pre)))
          \<and> b < iou_value t x
          \<and> (\<forall>y\<in>set (d # pre). iou_value t y < iou_value t x)
          \<and> (\<forall>y\<in>set post. iou_value t y \<le> iou_value t x)"
        using step some True by (simp add: v_def)
      then show ?thesis by (intro disjI2 exI)
    qed
  next
    case False
    then have step: "find_best_loop t (d # ds) i b k = find_best_loop t ds (i + 1) b k"
      by (simp add: c')
    from Cons.IH [OF rest, of b "i + 1" k]
    consider (none) "list_all (\<lambda>d. iou_value t d \<le> b) ds"
        "find_best_loop t ds (i + 1) b k = Inr (b, k)"
      | (some) pre x post where "ds = pre @ x # post"
        "find_best_loop t ds (i + 1) b k = Inr (iou_value t x, i + 1 + int (length pre))"
        "b < iou_value t x"
        "\<forall>y\<in>set pre. iou_value t y < iou_value t x"
        "\<forall>y\<in>set post. iou_value t y \<le> iou_value t x"
      by blast
    then show ?thesis
    proof cases
      case none
      have "list_all (\<lambda>d. iou_value t d \<le> b) (d # ds)
          \<and> find_best_loop t (d # ds) i b k = Inr (b, k)"
        using step none False by (simp add: v_def)
      then show ?thesis by (rule disjI1)
    next
      case some
      have "d # ds = (d # pre) @ x # post
          \<and> find_best_loop t (d # ds) i b k = Inr (iou_value t x, i + int (length (d # pre)))
          \<and> b < iou_value t x
          \<and> (\<forall>y\<in>set (d # pre). iou_value t y < iou_value t x)
          \<and> (\<forall>y\<in>set post. iou_value t y \<le> iou_value t x)"
        using step some False by (simp add: v_def)
      then show ?thesis by (intro disjI2 exI)
    qed
  qed
qed


subsection \<open>Claim C2: the matcher returns the first index of the largest positive IoU\<close>

text \<open>
  C2. For every track box and every list of detection boxes (four coordinates each),
  \<open>find_best_matching_detection_index\<close> returns without an exception. It returns \<open>None\<close>
  exactly when the IoU of the track box with every detection box is \<open>0\<close>, and always for
  the empty list. When it returns an index, the index is in range, the IoU there is
  greater than \<open>0\<close> and is the largest IoU of the list, and every earlier detection has a
  strictly smaller IoU: among equal maxima the lowest index wins.
\<close>

theorem find_best_matching_detection_index_argmax:
  assumes "4 \<le> length t" and "\<forall>d\<in>set ds. 4 \<le> length d"
  shows "\<exists>r. find_best_matching_detection_index t ds = Inr r
           \<and> (r = None \<longleftrightarrow> (\<forall>j<length ds. iou_value t (ds ! j) = 0))
           \<and> (\<forall>i. r = Some i \<longrightarrow>
                 0 \<le> i \<and> nat i < length ds \<and> 0 < iou_value t (ds ! nat i)
                 \<and> (\<forall>j<length ds. iou_value t (ds ! j) \<le> iou_value t (ds ! nat i))
                 \<and> (\<forall>j<nat i. iou_value t (ds ! j) < iou_value t (ds ! nat i)))
           \<and> find_best_matching_detection_index t [] = Inr None"
proof -
  have empty: "find_best_matching_detection_index t [] = Inr None"
    by (simp add: find_best_matching_detection_index_def)
  have nonneg: "0 \<le> iou_value t (ds ! j)" if "j < length ds" for j
    using assms that by (intro compute_iou_value(2)) auto
  from find_best_loop_spec [OF assms, of 0 0 "- 1"]
  consider (none) "list_all (\<lambda>d. iou_value t d \<le> 0) ds"
      "find_best_loop t ds 0 0 (- 1) = Inr (0, - 1)"
    | (some) pre x post where "ds = pre @ x # post"
      "find_best_loop t ds 0 0 (- 1) = Inr (iou_value t x, 0 + int (length pre))"
      "0 < iou_value t x"
      "\<forall>y\<in>set pre. iou_value t y < iou_value t x"
      "\<forall>y\<in>set post. iou_value t y \<le> iou_value t x"
    by blast
  then show ?thesis
  proof cases
    case none
    have r: "find_best_matching_detection_index t ds = Inr None"
      using none(2) by (simp add: find_best_matching_detection_index_def)
    have "iou_value t (ds ! j) = 0" if "j < length ds" for j
    proof -
      have "iou_value t (ds ! j) \<le> 0"
        using none(1) that by (simp add: list_all_length)
      with nonneg [OF that] show ?thesis by linarith
    qed
    with r empty show ?thesis by simp
  next
    case some
    let ?i = "int (length pre)"
    have r: "find_best_matching_detection_index t ds = Inr (Some ?i)"
      using some(2) by (simp add: find_best_matching_detection_index_def)
    have at: "ds ! length pre = x"
      using some(1) by simp
    have len: "length pre < length ds"
      using some(1) by simp
    have before: "iou_value t (ds ! j) < iou_value t x" if "j < length pre" for j
    proof -
      have "ds ! j = pre ! j" using some(1) that by (simp add: nth_append)
      then show ?thesis using some(4) that by simp
    qed
    have all: "iou_value t (ds ! j) \<le> iou_value t x" if "j < length ds" for j
    proof -
      have "ds ! j \<in> set ds" using that by simp
      then have "ds ! j \<in> set pre \<or> ds ! j = x \<or> ds ! j \<in> set post"
        using some(1) by auto
      then show ?thesis using some(4,5) by (elim disjE) (force+)
    qed
    have notall: "\<not> (\<forall>j<length ds. iou_value t (ds ! j) = 0)"
      using len at some(3) by (metis less_irrefl)
    show ?thesis
      using r empty at len before all notall some(3) by simp
  qed
qed

theorem find_best_matching_detection_index_argmax_witness:
  "find_best_matching_detection_index [0, 0, 10, 10]
     [[20, 20, 30, 30], [5, 5, 15, 15], [0, 0, 10, 10], [0, 0, 10, 10]] = Inr (Some 2)
   \<and> iou_value [0, 0, 10, 10] [20, 20, 30, 30] \<le> iou_value [0, 0, 10, 10] [0, 0, 10, 10]
   \<and> iou_value [0, 0, 10, 10] [5, 5, 15, 15] \<le> iou_value [0, 0, 10, 10] [0, 0, 10, 10]
   \<and> find_best_matching_detection_index [0, 0, 10, 10] [[20, 20, 30, 30]] = Inr None
   \<and> iou_value [0, 0, 10, 10] [20, 20, 30, 30] = 0"
proof -
  let ?t = "[0, 0, 10, 10] :: real list"
  let ?ds = "[[20, 20, 30, 30], [5, 5, 15, 15], [0, 0, 10, 10], [0, 0, 10, 10]] :: real list list"
  let ?es = "[[20, 20, 30, 30]] :: real list list"
  have t: "4 \<le> length ?t" by simp
  have ds: "\<forall>d\<in>set ?ds. 4 \<le> length d" by simp
  have es: "\<forall>d\<in>set ?es. 4 \<le> length d" by simp
  have r1: "find_best_matching_detection_index ?t ?ds = Inr (Some 2)"
    by (simp add: find_best_matching_detection_index_def compute_iou_def Let_def)
  have r2: "find_best_matching_detection_index ?t ?es = Inr None"
    by (simp add: find_best_matching_detection_index_def compute_iou_def Let_def)
  have "\<forall>j<length ?ds. iou_value ?t (?ds ! j) \<le> iou_value ?t (?ds ! nat 2)"
    using find_best_matching_detection_index_argmax [OF t ds] r1 by auto
  then have m: "\<forall>j<4. iou_value ?t (?ds ! j) \<le> iou_value ?t [0, 0, 10, 10]"
    by simp
  have "\<forall>j<length ?es. iou_value ?t (?es ! j) = 0"
    using find_best_matching_detection_index_argmax [OF t es] r2 by auto
  then have z: "iou_value ?t [20, 20, 30, 30] = 0"
    by simp
  from m have m0: "iou_value ?t (?ds ! 0) \<le> iou_value ?t [0, 0, 10, 10]"
    by (simp only: zero_less_numeral)
  from m have m1: "iou_value ?t (?ds ! 1) \<le> iou_value ?t [0, 0, 10, 10]"
    by (simp only: one_less_numeral_iff semiring_norm)
  from m0 have n0: "iou_value ?t [20, 20, 30, 30] \<le> iou_value ?t [0, 0, 10, 10]"
    by simp
  from m1 have n1: "iou_value ?t [5, 5, 15, 15] \<le> iou_value ?t [0, 0, 10, 10]"
    by simp
  from r1 n0 n1 r2 z show ?thesis by blast
qed

section \<open>Properties of the detection selector\<close>

lemma class_candidates_total:
  assumes "\<forall>det\<in>set dets. 5 \<le> length det"
  shows "\<exists>cs. class_candidates thr dn cid dets = Inr cs
           \<and> (\<forall>c\<in>set cs. thr \<le> fst c \<and> fst (snd c) = cid)
           \<and> length cs = length (filter (\<lambda>det. thr \<le> det ! 4) dets)"
  using assms
proof (induction dets)
  case Nil
  show ?case by simp
next
  case (Cons det dets)
  then obtain cs where cs: "class_candidates thr dn cid dets = Inr cs"
      "\<forall>c\<in>set cs. thr \<le> fst c \<and> fst (snd c) = cid"
      "length cs = length (filter (\<lambda>det. thr \<le> det ! 4) dets)"
    by auto
  have l: "\<not> length det < 5" using Cons.prems by auto
  show ?case
  proof (cases "thr \<le> det ! 4")
    case True
    then show ?thesis using cs l by simp
  next
    case False
    then show ?thesis using cs l by simp
  qed
qed

lemma all_candidates_total:
  assumes "\<forall>p\<in>set pairs. \<forall>det\<in>set (snd p). 5 \<le> length det"
  shows "\<exists>ps. all_candidates tci thr dn pairs = Inr ps
           \<and> (\<forall>c\<in>set ps. thr \<le> fst c \<and> fst (snd c) \<in> tci)
           \<and> length ps = sum_list (map (\<lambda>(class_id, dets).
                 if class_id \<in> tci then length (filter (\<lambda>det. thr \<le> det ! 4) dets) else 0) pairs)"
  using assms
proof (induction pairs)
  case Nil
  show ?case by simp
next
  case (Cons p pairs)
  let ?n = "\<lambda>(class_id, dets).
     if class_id \<in> tci then length (filter (\<lambda>det. thr \<le> det ! 4) dets) else 0"
  obtain cid dets where p: "p = (cid, dets)" by (cases p)
  from Cons obtain ps where ps: "all_candidates tci thr dn pairs = Inr ps"
      "\<forall>c\<in>set ps. thr \<le> fst c \<and> fst (snd c) \<in> tci"
      "length ps = sum_list (map ?n pairs)"
    by auto
  have "\<forall>det\<in>set dets. 5 \<le> length det" using Cons.prems p by auto
  from class_candidates_total [OF this, of thr dn cid]
  obtain cs where cs: "class_candidates thr dn cid dets = Inr cs"
      "\<forall>c\<in>set cs. thr \<le> fst c \<and> fst (snd c) = cid"
      "length cs = length (filter (\<lambda>det. thr \<le> det ! 4) dets)"
    by blast
  show ?case
  proof (cases "cid \<in> tci")
    case True
    have "all_candidates tci thr dn (p # pairs) = Inr (cs @ ps)"
      using True p cs(1) ps(1) by simp
    moreover have "\<forall>c\<in>set (cs @ ps). thr \<le> fst c \<and> fst (snd c) \<in> tci"
      using True cs(2) ps(2) by auto
    moreover have "length (cs @ ps) = sum_list (map ?n (p # pairs))"
      using True p cs(3) ps(3) by simp
    ultimately show ?thesis by blast
  next
    case False
    have "all_candidates tci thr dn (p # pairs) = Inr ps"
      using False p ps(1) by simp
    moreover have "length ps = sum_list (map ?n (p # pairs))"
      using False p ps(3) by simp
    ultimately show ?thesis using ps(2) by blast
  qed
qed

lemma target_class_indices_iff:
  "c \<in> target_class_indices labels tls \<longleftrightarrow> c < length labels \<and> labels ! c \<in> set tls"
proof -
  have "c \<in> target_class_indices labels tls \<longleftrightarrow>
          (\<exists>l. (c, l) \<in> set (enumerate 0 labels) \<and> l \<in> set tls)"
    by (force simp: target_class_indices_def)
  also have "\<dots> \<longleftrightarrow> c < length labels \<and> labels ! c \<in> set tls"
    by (auto simp: in_set_enumerate_eq)
  finally show ?thesis .
qed

lemma py_slice_to_props:
  "set (py_slice_to xs n) \<subseteq> set xs"
  "0 \<le> n \<Longrightarrow> length (py_slice_to xs n) = min (nat n) (length xs)"
  "sorted_wrt P xs \<Longrightarrow> sorted_wrt P (py_slice_to xs n)"
  by (auto simp: py_slice_to_def sorted_wrt_take dest: in_set_takeD)

lemma sorted_desc_scores:
  "sorted_wrt (\<lambda>a b. fst a \<ge> fst b) (sort_key (\<lambda>c. - fst c) (cs :: candidate list))"
proof -
  have "sorted (map (\<lambda>c. - fst c) (sort_key (\<lambda>c. - fst c) cs))"
    by (rule sorted_sort_key)
  then show ?thesis
    by (simp add: sorted_map sorted_wrt_iff_nth_less)
qed

text \<open>
  C1 (amended). Let the raw input be well formed: every raw detection has its four
  coordinates and its score. For every such input, every configuration holding
  \<open>visualization_params\<close> and every label vocabulary, \<open>extract_detections\<close> returns; the three
  sequences it returns have the length \<open>num_detections\<close>; every score is at least the score
  threshold; every class index is the index of a label that belongs to the target labels;
  the scores are in descending order. When \<open>max_boxes\<close> is not negative, \<open>num_detections\<close>
  is at most \<open>max_boxes\<close>, and it is the smaller of \<open>max_boxes\<close> and the number of raw
  detections of target classes that reach the threshold: the detections of the other
  classes are left out before the truncation and take no place among the selected ones.
  For a negative \<open>max_boxes\<close> the slice \<open>all_detections[:max_boxes]\<close> drops the last entries
  of the sorted pool instead, and the bound fails.
\<close>

theorem extract_detections_selected:
  assumes "\<forall>dets\<in>set raw. \<forall>det\<in>set dets. 5 \<le> length det"
  shows "\<exists>r. extract_detections h w raw (Some vp) labels target_labels = Inr r
     \<and> length (detection_boxes r) = num_detections r
     \<and> length (detection_classes r) = num_detections r
     \<and> length (detection_scores r) = num_detections r
     \<and> (0 \<le> get_max_boxes vp \<longrightarrow>
          int (num_detections r) \<le> get_max_boxes vp
          \<and> num_detections r =
              min (nat (get_max_boxes vp))
                (sum_list (map (\<lambda>(class_id, dets).
                   if class_id < length labels
                      \<and> labels ! class_id \<in> set (default_target_labels target_labels)
                   then length (filter (\<lambda>det. get_score_threshold vp \<le> det ! 4) dets) else 0)
                   (enumerate 0 raw))))
     \<and> (\<forall>s\<in>set (detection_scores r). get_score_threshold vp \<le> s)
     \<and> (\<forall>c\<in>set (detection_classes r).
          c < length labels \<and> labels ! c \<in> set (default_target_labels target_labels))
     \<and> sorted_wrt (\<ge>) (detection_scores r)"
proof -
  define tls where "tls = default_target_labels target_labels"
  define tci where "tci = target_class_indices labels tls"
  define thr where "thr = get_score_threshold vp"
  define dn where "dn = (\<lambda>bbox. denormalize_and_rm_pad bbox (max h w)
     (py_int (real_of_int \<bar>h - w\<bar> / 2)) h w)"
  have wf: "\<forall>p\<in>set (enumerate 0 raw). \<forall>det\<in>set (snd p). 5 \<le> length det"
    using assms by (auto simp: in_set_enumerate_eq)
  from all_candidates_total [OF wf, of tci thr dn]
  obtain ps where ps: "all_candidates tci thr dn (enumerate 0 raw) = Inr ps"
      "\<forall>c\<in>set ps. thr \<le> fst c \<and> fst (snd c) \<in> tci"
      "length ps = sum_list (map (\<lambda>(class_id, dets).
         if class_id \<in> tci then length (filter (\<lambda>det. thr \<le> det ! 4) dets) else 0)
         (enumerate 0 raw))"
    by blast
  define top where "top = py_slice_to (sort_key (\<lambda>c. - fst c) ps) (get_max_boxes vp)"
  define r where "r = \<lparr> detection_boxes = map (\<lambda>c. snd (snd c)) top,
     detection_classes = map (\<lambda>c. fst (snd c)) top,
     detection_scores = map fst top,
     num_detections = length top \<rparr>"
  have res: "extract_detections h w raw (Some vp) labels target_labels = Inr r"
    using ps(1) unfolding extract_detections_def r_def top_def dn_def thr_def tci_def tls_def
    by (simp add: Let_def)
  have sub: "set top \<subseteq> set ps"
    using py_slice_to_props(1) [of "sort_key (\<lambda>c. - fst c) ps" "get_max_boxes vp"]
    by (simp add: top_def)
  have cnt: "(\<lambda>(class_id, dets).
         if class_id \<in> tci then length (filter (\<lambda>det. thr \<le> det ! 4) dets) else 0)
      = (\<lambda>(class_id, dets).
         if class_id < length labels \<and> labels ! class_id \<in> set tls
         then length (filter (\<lambda>det. thr \<le> det ! 4) dets) else (0::nat))"
    by (simp add: tci_def target_class_indices_iff)
  have len: "length top = min (nat (get_max_boxes vp)) (length ps)" if "0 \<le> get_max_boxes vp"
    using py_slice_to_props(2) [OF that, of "sort_key (\<lambda>c. - fst c) ps"]
    by (simp add: top_def)
  have bound: "int (length top) \<le> get_max_boxes vp" if "0 \<le> get_max_boxes vp"
    using len [OF that] that by linarith
  have scores: "\<forall>s\<in>set (map fst top). thr \<le> s"
    using sub ps(2) by auto
  have classes: "\<forall>c\<in>set (map (\<lambda>c. fst (snd c)) top). c < length labels \<and> labels ! c \<in> set tls"
    using sub ps(2) by (auto simp: tci_def target_class_indices_iff)
  have "sorted_wrt (\<lambda>a b. fst a \<ge> fst b) top"
    unfolding top_def by (intro py_slice_to_props(3) sorted_desc_scores)
  then have srt: "sorted_wrt (\<ge>) (map fst top)"
    by (simp add: sorted_wrt_map)
  have a: "length (detection_boxes r) = num_detections r"
     "length (detection_classes r) = num_detections r"
     "length (detection_scores r) = num_detections r"
    by (simp_all add: r_def)
  have b: "0 \<le> get_max_boxes vp \<longrightarrow>
          int (num_detections r) \<le> get_max_boxes vp
          \<and> num_detections r =
              min (nat (get_max_boxes vp))
                (sum_list (map (\<lambda>(class_id, dets).
                   if class_id < length labels \<and> labels ! class_id \<in> set tls
                   then length (filter (\<lambda>det. thr \<le> det ! 4) dets) else 0)
                   (enumerate 0 raw)))"
    using bound len ps(3) unfolding cnt by (simp add: r_def)
  have c: "\<forall>s\<in>set (detection_scores r). thr \<le> s"
    using scores by (simp add: r_def)
  have d: "\<forall>c\<in>set (detection_classes r). c < length labels \<and> labels ! c \<in> set tls"
    using classes by (simp add: r_def)
  have e: "sorted_wrt (\<ge>) (detection_scores r)"
    using srt by (simp add: r_def)
  from res a b c d e show ?thesis
    unfolding tls_def thr_def by blast
qed

text \<open>The definitions unfolded to run the selector on a concrete input.\<close>

lemmas sel_eval = extract_detections_def Let_def default_target_labels_def
    target_class_indices_def get_score_threshold_def get_max_boxes_def py_slice_to_def
    denormalize_and_rm_pad_def denormalize_entry_def py_int_def

theorem extract_detections_selected_witness:
  "extract_detections 480 640
     [[[1/4, 1/4, 1/2, 1/2, 3/5], [1/4, 1/4, 1/2, 1/2, 3/10]],
      [[1/2, 1/2, 3/4, 3/4, 7/10]],
      [[0, 0, 1, 1, 19/20]]]
     (Some \<lparr> score_thres = None, max_boxes_to_draw = Some 2 \<rparr>)
     [''person'', ''car'', ''dog''] None
   = Inr \<lparr> detection_boxes = [[240, 320, 400, 480], [80, 160, 240, 320]],
            detection_classes = [1, 0],
            detection_scores = [7/10, 3/5],
            num_detections = 2 \<rparr>
   \<and> int (num_detections \<lparr> detection_boxes = [[240, 320, 400, 480], [80, 160, 240, 320]],
            detection_classes = [1, 0],
            detection_scores = [7/10, 3/5],
            num_detections = 2 \<rparr>)
       \<le> get_max_boxes \<lparr> score_thres = None, max_boxes_to_draw = Some 2 \<rparr>
   \<and> sorted_wrt (\<ge>) (detection_scores
         \<lparr> detection_boxes = [[240, 320, 400, 480], [80, 160, 240, 320]],
            detection_classes = [1, 0],
            detection_scores = [7/10, 3/5],
            num_detections = 2 \<rparr>)"
proof -
  let ?raw = "[[[1/4, 1/4, 1/2, 1/2, 3/5], [1/4, 1/4, 1/2, 1/2, 3/10]],
      [[1/2, 1/2, 3/4, 3/4, 7/10]],
      [[0, 0, 1, 1, 19/20]]] :: real list list list"
  let ?vp = "\<lparr> score_thres = None, max_boxes_to_draw = Some 2 \<rparr>"
  let ?labels = "[''person'', ''car'', ''dog'']"
  let ?r = "\<lparr> detection_boxes = [[240, 320, 400, 480], [80, 160, 240, 320]],
            detection_classes = [1, 0],
            detection_scores = [7/10, 3/5],
            num_detections = 2 \<rparr>"
  have wf: "\<forall>dets\<in>set ?raw. \<forall>det\<in>set dets. 5 \<le> length det" by simp
  have mb: "0 \<le> get_max_boxes ?vp" by (simp add: get_max_boxes_def)
  have r: "extract_detections 480 640 ?raw (Some ?vp) ?labels None = Inr ?r"
    by (simp add: sel_eval)
  from extract_detections_selected [OF wf, of 480 640 ?vp ?labels None]
  obtain r' where r': "extract_detections 480 640 ?raw (Some ?vp) ?labels None = Inr r'"
     "0 \<le> get_max_boxes ?vp \<longrightarrow> int (num_detections r') \<le> get_max_boxes ?vp"
     "sorted_wrt (\<ge>) (detection_scores r')"
    by blast
  from r r'(1) have eq: "r' = ?r" by (simp only: sum.inject)
  from r'(2) mb have b: "int (num_detections ?r) \<le> get_max_boxes ?vp"
    unfolding eq by blast
  from r'(3) have c: "sorted_wrt (\<ge>) (detection_scores ?r)"
    unfolding eq .
  from r b c show ?thesis by blast
qed

text \<open>
  With \<open>max_boxes_to_draw = -1\<close> and two detections of a target class above the threshold,
  one detection is returned: more than \<open>max_boxes\<close>.
\<close>

theorem extract_detections_negative_max_boxes_counterexample:
  "extract_detections 10 10
     [[[0, 0, 1, 1, 9/10], [0, 0, 1, 1, 4/5]]]
     (Some \<lparr> score_thres = None, max_boxes_to_draw = Some (- 1) \<rparr>)
     [''person''] None
   = Inr \<lparr> detection_boxes = [[0, 0, 10, 10]],
            detection_classes = [0],
            detection_scores = [9/10],
            num_detections = 1 \<rparr>
   \<and> get_max_boxes \<lparr> score_thres = None, max_boxes_to_draw = Some (- 1) \<rparr> = - 1
   \<and> \<not> int (num_detections \<lparr> detection_boxes = [[0, 0, 10, 10]],
            detection_classes = [0],
            detection_scores = [9/10],
            num_detections = 1 \<rparr>)
        \<le> get_max_boxes \<lparr> score_thres = None, max_boxes_to_draw = Some (- 1) \<rparr>"
  by (simp add: sel_eval)

section \<open>Properties of the frame orchestrator\<close>

lemma lm_run_append: "lm_run (xs @ ys) st = lm_run ys (lm_run xs st)"
  by (simp add: lm_run_def)

lemma lm_step_current_frame_eq:
  "current_frame (lm_step c st) = current_frame st + (if c = UpdateFrameCount then 1 else 0)"
  by (cases c)
     (simp_all add: update_frame_count_def update_track_def is_loitering_fst
        cleanup_missing_tracks_def Let_def)

lemma lm_run_current_frame_eq:
  "current_frame (lm_run cs st) = current_frame st + int (count_list cs UpdateFrameCount)"
  unfolding lm_run_def
  by (induction cs arbitrary: st) (simp_all add: lm_step_current_frame_eq)

lemma find_best_matching_detection_index_cases:
  assumes "4 \<le> length t" and "\<forall>d\<in>set ds. 4 \<le> length d"
  shows "(find_best_matching_detection_index t ds = Inr None
            \<and> \<not> (\<exists>d\<in>set ds. 0 < iou_value t d))
       \<or> (\<exists>i. find_best_matching_detection_index t ds = Inr (Some i)
            \<and> 0 \<le> i \<and> nat i < length ds \<and> (\<exists>d\<in>set ds. 0 < iou_value t d))"
proof -
  from find_best_loop_spec [OF assms, of 0 0 "- 1"]
  consider (none) "list_all (\<lambda>d. iou_value t d \<le> 0) ds"
      "find_best_loop t ds 0 0 (- 1) = Inr (0, - 1)"
    | (some) pre x post where "ds = pre @ x # post"
      "find_best_loop t ds 0 0 (- 1) = Inr (iou_value t x, 0 + int (length pre))"
      "0 < iou_value t x"
    by blast
  then show ?thesis
  proof cases
    case none
    have "find_best_matching_detection_index t ds = Inr None"
      using none(2) by (simp add: find_best_matching_detection_index_def)
    moreover have "\<not> (\<exists>d\<in>set ds. 0 < iou_value t d)"
      using none(1) by (auto simp: list_all_iff)
    ultimately show ?thesis by (rule_tac disjI1) simp
  next
    case some
    have "find_best_matching_detection_index t ds = Inr (Some (int (length pre)))"
      using some(2) by (simp add: find_best_matching_detection_index_def)
    moreover have "nat (int (length pre)) < length ds" using some(1) by simp
    moreover have "\<exists>d\<in>set ds. 0 < iou_value t d" using some(1,3) by auto
    ultimately show ?thesis by (intro disjI2 exI [of _ "int (length pre)"]) simp
  qed
qed

lemma target_filter_loop_total:
  assumes "\<forall>i\<in>set idxs. i < length classes \<and> i < length boxes \<and> i < length scores"
  shows "target_filter_loop tci boxes scores classes idxs =
           Inr (map (\<lambda>i. (boxes ! i, scores ! i, classes ! i))
                  (filter (\<lambda>i. classes ! i \<in> tci) idxs))"
  using assms by (induction idxs) auto

lemma loitering_check_spec:
  "\<exists>new col'. loitering_check ld epo pci cls tid mgr col = (map_option (lm_run new) mgr, new, col')
      \<and> set new \<subseteq> {UpdateTrack tid, IsLoitering tid}"
proof (cases "ld \<and> (\<not> epo \<or> (pci \<noteq> - 1 \<and> int cls = pci)) \<and> mgr \<noteq> None")
  case True
  then obtain m where m: "mgr = Some m" by auto
  have a: "loitering_check ld epo pci cls tid (Some m) col =
      (map_option (lm_run [UpdateTrack tid, IsLoitering tid]) (Some m),
       [UpdateTrack tid, IsLoitering tid],
       if snd (is_loitering (update_track m tid) tid) then Red else col)"
    using True by (simp add: loitering_check_def Let_def case_prod_beta lm_run_def)
  show ?thesis unfolding m
    by (rule exI [of _ "[UpdateTrack tid, IsLoitering tid]"],
        rule exI [of _ "if snd (is_loitering (update_track m tid) tid) then Red else col"])
       (simp only: a, simp)
next
  case False
  have "loitering_check ld epo pci cls tid mgr col = (mgr, [], col)"
    using False by (auto simp: loitering_check_def Let_def split: option.splits)
  moreover have "map_option (lm_run []) mgr = mgr"
    by (cases mgr) (simp_all add: lm_run_def)
  ultimately show ?thesis by (intro exI [of _ "[]"] exI [of _ col]) simp
qed

lemma track_step_spec:
  assumes t: "length (tlbr t) = 4"
    and b: "\<forall>d\<in>set boxes. 4 \<le> length d"
    and c: "length classes = length boxes"
    and l: "\<forall>c\<in>set classes. c < length labels"
  shows "\<exists>fr' new. track_step labels boxes classes ld epo pci t (ids, fr) =
           Inr ((if \<exists>d\<in>set boxes. 0 < iou_value (tlbr t) d then insert (track_id t) ids else ids), fr')
         \<and> fr_calls fr' = fr_calls fr @ new
         \<and> set new \<subseteq> {UpdateTrack (track_id t), IsLoitering (track_id t)}
         \<and> fr_manager fr' = map_option (lm_run new) (fr_manager fr)"
proof -
  have t4: "4 \<le> length (tlbr t)" using t by simp
  from find_best_matching_detection_index_cases [OF t4 b]
  consider (none) "find_best_matching_detection_index (tlbr t) boxes = Inr None"
      "\<not> (\<exists>d\<in>set boxes. 0 < iou_value (tlbr t) d)"
    | (some) i where "find_best_matching_detection_index (tlbr t) boxes = Inr (Some i)"
      "0 \<le> i" "nat i < length boxes" "\<exists>d\<in>set boxes. 0 < iou_value (tlbr t) d"
    by blast
  then show ?thesis
  proof cases
    case none
    have "track_step labels boxes classes ld epo pci t (ids, fr) = Inr (ids, fr)"
      using t none(1) by (simp add: track_step_def Let_def)
    moreover have "map_option (lm_run []) (fr_manager fr) = fr_manager fr"
      by (cases "fr_manager fr") (simp_all add: lm_run_def)
    ultimately show ?thesis using none(2)
      by (intro exI [of _ fr] exI [of _ "[]"]) simp
  next
    case some
    define cls where "cls = classes ! nat i"
    have ci: "\<not> length classes \<le> nat i" using some(3) c by simp
    have "cls \<in> set classes" using ci by (simp add: cls_def)
    then have cl: "\<not> length labels \<le> cls" using l by auto
    obtain new col' where lc: "loitering_check ld epo pci cls (track_id t) (fr_manager fr) (IdToColor cls)
         = (map_option (lm_run new) (fr_manager fr), new, col')"
       "set new \<subseteq> {UpdateTrack (track_id t), IsLoitering (track_id t)}"
      using loitering_check_spec by blast
    obtain sm' disp where sd: "speed_display (fr_speed fr) (track_id t)
        [py_int (tlbr t ! 0), py_int (tlbr t ! 1), py_int (tlbr t ! 2), py_int (tlbr t ! 3)] = (sm', disp)"
      by (cases "speed_display (fr_speed fr) (track_id t)
        [py_int (tlbr t ! 0), py_int (tlbr t ! 1), py_int (tlbr t ! 2), py_int (tlbr t ! 3)]")
    have "\<exists>fr'. track_step labels boxes classes ld epo pci t (ids, fr) = Inr (insert (track_id t) ids, fr')
        \<and> fr_calls fr' = fr_calls fr @ new
        \<and> fr_manager fr' = map_option (lm_run new) (fr_manager fr)"
      using t some(1) ci cl lc(1) sd
      by (simp add: track_step_def Let_def cls_def [symmetric] draw_detection_def)
    then show ?thesis using some(4) lc(2) by auto
  qed
qed

lemma track_loop_spec:
  assumes "\<forall>t\<in>set ts. length (tlbr t) = 4"
    and b: "\<forall>d\<in>set boxes. 4 \<le> length d"
    and c: "length classes = length boxes"
    and l: "\<forall>c\<in>set classes. c < length labels"
  shows "\<exists>fr' new. track_loop labels boxes classes ld epo pci ts (ids, fr) =
           Inr (ids \<union> track_id ` {t \<in> set ts. \<exists>d\<in>set boxes. 0 < iou_value (tlbr t) d}, fr')
         \<and> fr_calls fr' = fr_calls fr @ new
         \<and> (\<forall>c\<in>set new. \<exists>k. c = UpdateTrack k \<or> c = IsLoitering k)
         \<and> fr_manager fr' = map_option (lm_run new) (fr_manager fr)"
  using assms(1)
proof (induction ts arbitrary: ids fr)
  case Nil
  have "map_option (lm_run []) (fr_manager fr) = fr_manager fr"
    by (cases "fr_manager fr") (simp_all add: lm_run_def)
  then show ?case by (intro exI [of _ fr] exI [of _ "[]"]) simp
next
  case (Cons t ts)
  let ?M = "\<lambda>t. \<exists>d\<in>set boxes. 0 < iou_value (tlbr t) d"
  let ?ids1 = "if ?M t then insert (track_id t) ids else ids"
  have t: "length (tlbr t) = 4" using Cons.prems by simp
  have ts: "\<forall>t\<in>set ts. length (tlbr t) = 4" using Cons.prems by simp
  from track_step_spec [OF t b c l, of ld epo pci ids fr]
  obtain fr1 new1 where s1: "track_step labels boxes classes ld epo pci t (ids, fr) = Inr (?ids1, fr1)"
      "fr_calls fr1 = fr_calls fr @ new1"
      "set new1 \<subseteq> {UpdateTrack (track_id t), IsLoitering (track_id t)}"
      "fr_manager fr1 = map_option (lm_run new1) (fr_manager fr)"
    by blast
  from Cons.IH [OF ts, of ?ids1 fr1]
  obtain fr2 new2 where s2: "track_loop labels boxes classes ld epo pci ts (?ids1, fr1) =
        Inr (?ids1 \<union> track_id ` {t \<in> set ts. ?M t}, fr2)"
      "fr_calls fr2 = fr_calls fr1 @ new2"
      "\<forall>c\<in>set new2. \<exists>k. c = UpdateTrack k \<or> c = IsLoitering k"
      "fr_manager fr2 = map_option (lm_run new2) (fr_manager fr1)"
    by blast
  have ids: "?ids1 \<union> track_id ` {t \<in> set ts. ?M t}
      = ids \<union> track_id ` {u \<in> set (t # ts). ?M u}"
    by auto
  have r: "track_loop labels boxes classes ld epo pci (t # ts) (ids, fr) =
      Inr (ids \<union> track_id ` {u \<in> set (t # ts). ?M u}, fr2)"
    using s1(1) s2(1) unfolding ids by simp
  have calls: "fr_calls fr2 = fr_calls fr @ (new1 @ new2)"
    using s1(2) s2(2) by simp
  have kinds: "\<forall>c\<in>set (new1 @ new2). \<exists>k. c = UpdateTrack k \<or> c = IsLoitering k"
    using s1(3) s2(3) by auto
  have mgr: "fr_manager fr2 = map_option (lm_run (new1 @ new2)) (fr_manager fr)"
    using s1(4) s2(4) by (cases "fr_manager fr") (simp_all add: lm_run_append)
  from r calls kinds mgr show ?case by blast
qed


lemma draw_detections_tracked:
  assumes n: "num_detections dets \<le> length (detection_classes dets)"
      "num_detections dets \<le> length (detection_boxes dets)"
      "num_detections dets \<le> length (detection_scores dets)"
    and b: "\<forall>d\<in>set (detection_boxes dets). 4 \<le> length d"
    and u: "\<forall>rows. \<forall>t\<in>set (upd rows). length (tlbr t) = 4"
  shows "\<exists>kept. target_filter_loop (target_class_indices labels (default_target_labels tls))
             (detection_boxes dets) (detection_scores dets) (detection_classes dets)
             [0..<num_detections dets] = Inr kept
     \<and> (kept = [] \<longrightarrow>
          draw_detections dets labels (Some upd) sm tls ld (Some m) epo pci =
            Inr \<lparr> fr_manager = Some m, fr_speed = sm, fr_calls = [], fr_drawn = [] \<rparr>)
     \<and> (kept \<noteq> [] \<longrightarrow>
          (\<exists>fr mid. draw_detections dets labels (Some upd) sm tls ld (Some m) epo pci = Inr fr
             \<and> fr_calls fr = UpdateFrameCount # mid @
                  [CleanupMissingTracks
                     (track_id ` {t \<in> set (upd (map (\<lambda>(box, sc, cls). box @ [sc]) kept)).
                                   \<exists>d\<in>set (map fst kept). 0 < iou_value (tlbr t) d})]
             \<and> (\<forall>c\<in>set mid. \<exists>k. c = UpdateTrack k \<or> c = IsLoitering k)
             \<and> fr_manager fr = Some (lm_run (fr_calls fr) m)))"
proof -
  define tci where "tci = target_class_indices labels (default_target_labels tls)"
  define kept where "kept = map (\<lambda>i. (detection_boxes dets ! i, detection_scores dets ! i,
        detection_classes dets ! i))
      (filter (\<lambda>i. detection_classes dets ! i \<in> tci) [0..<num_detections dets])"
  define fr0 :: "'a frame" where
    "fr0 = \<lparr> fr_manager = Some m, fr_speed = sm, fr_calls = [], fr_drawn = [] \<rparr>"
  have idx: "\<forall>i\<in>set [0..<num_detections dets]. i < length (detection_classes dets)
      \<and> i < length (detection_boxes dets) \<and> i < length (detection_scores dets)"
    using n by auto
  have fl: "target_filter_loop tci (detection_boxes dets) (detection_scores dets)
      (detection_classes dets) [0..<num_detections dets] = Inr kept"
    unfolding kept_def by (rule target_filter_loop_total [OF idx])
  have empty: "draw_detections dets labels (Some upd) sm tls ld (Some m) epo pci = Inr fr0"
    if "kept = []"
    using fl that by (simp add: draw_detections_def Let_def tci_def fr0_def)
  have full: "\<exists>fr mid. draw_detections dets labels (Some upd) sm tls ld (Some m) epo pci = Inr fr
             \<and> fr_calls fr = UpdateFrameCount # mid @
                  [CleanupMissingTracks
                     (track_id ` {t \<in> set (upd (map (\<lambda>(box, sc, cls). box @ [sc]) kept)).
                                   \<exists>d\<in>set (map fst kept). 0 < iou_value (tlbr t) d})]
             \<and> (\<forall>c\<in>set mid. \<exists>k. c = UpdateTrack k \<or> c = IsLoitering k)
             \<and> fr_manager fr = Some (lm_run (fr_calls fr) m)"
    if ne: "kept \<noteq> []"
  proof -
    define rows where "rows = map (\<lambda>(box, sc, cls). box @ [sc]) kept"
    define boxes where "boxes = map fst kept"
    define classes where "classes = map (\<lambda>k. snd (snd k)) kept"
    define fr1 :: "'a frame" where
      "fr1 = fr0\<lparr> fr_manager := Some (update_frame_count m), fr_calls := [UpdateFrameCount] \<rparr>"
    define S where "S = track_id ` {t \<in> set (upd rows). \<exists>d\<in>set boxes. 0 < iou_value (tlbr t) d}"
    have rne: "rows \<noteq> []" using ne by (simp add: rows_def)
    have w1: "\<forall>t\<in>set (upd rows). length (tlbr t) = 4" using u by blast
    have w2: "\<forall>d\<in>set boxes. 4 \<le> length d"
      using b n(2) by (auto simp: boxes_def kept_def)
    have w3: "length classes = length boxes" by (simp add: classes_def boxes_def)
    have w4: "\<forall>c\<in>set classes. c < length labels"
      by (auto simp: classes_def kept_def tci_def target_class_indices_iff)
    from track_loop_spec [OF w1 w2 w3 w4, of ld epo pci "{}" fr1]
    obtain fr2 new where tl: "track_loop labels boxes classes ld epo pci (upd rows) ({}, fr1) =
          Inr (S, fr2)"
        "fr_calls fr2 = fr_calls fr1 @ new"
        "\<forall>c\<in>set new. \<exists>k. c = UpdateTrack k \<or> c = IsLoitering k"
        "fr_manager fr2 = map_option (lm_run new) (fr_manager fr1)"
      unfolding S_def by auto
    have mg: "fr_manager fr2 = Some (lm_run new (update_frame_count m))"
      using tl(4) by (simp add: fr1_def)
    define fr3 where "fr3 = fr2\<lparr> fr_manager := Some (cleanup_missing_tracks
         (lm_run new (update_frame_count m)) S),
       fr_calls := fr_calls fr2 @ [CleanupMissingTracks S] \<rparr>"
    have res: "draw_detections dets labels (Some upd) sm tls ld (Some m) epo pci = Inr fr3"
      using fl rne tl(1) mg
      unfolding draw_detections_def tci_def [symmetric] Let_def
      by (simp add: rows_def [symmetric] boxes_def [symmetric] classes_def [symmetric]
            fr0_def [symmetric] fr1_def [symmetric] fr3_def)
    have calls: "fr_calls fr3 = UpdateFrameCount # new @ [CleanupMissingTracks S]"
      using tl(2) by (simp add: fr3_def fr1_def)
    have "lm_run (UpdateFrameCount # new @ [CleanupMissingTracks S]) m
        = cleanup_missing_tracks (lm_run new (update_frame_count m)) S"
      by (simp add: lm_run_def)
    then have mgr: "fr_manager fr3 = Some (lm_run (fr_calls fr3) m)"
      unfolding calls by (simp add: fr3_def)
    from res calls tl(3) mgr show ?thesis
      unfolding S_def rows_def boxes_def by blast
  qed
  from fl empty full show ?thesis
    unfolding tci_def fr0_def by blast
qed


text \<open>The definitions unfolded to run the orchestrator on a concrete frame.\<close>

lemmas dd_eval = draw_detections_def track_step_def loitering_check_def speed_display_def
  draw_detection_def find_best_matching_detection_index_def compute_iou_def
  constant_tracker_def target_class_indices_def default_target_labels_def py_int_def

text \<open>
  C4. A frame is processed with a tracker and a loitering manager; the lists of the
  detections have at least \<open>num_detections\<close> entries, every box has four coordinates, and
  so has the box of every track the tracker returns. Then \<open>draw_detections\<close> returns.
  When at least one detection is kept by the filter, \<open>update_frame_count\<close> is the first
  call on the manager, before every \<open>update_track\<close> and \<open>is_loitering\<close> of the frame, no
  later call of the frame is \<open>update_frame_count\<close>, and the frame counter has advanced by
  one. When no detection is kept, the function has returned before that call: no call is
  made on the manager, the manager is the one passed in with its frame counter where it
  was, and nothing is drawn.
\<close>

theorem draw_detections_frame_count:
  assumes n: "num_detections dets \<le> length (detection_classes dets)"
      "num_detections dets \<le> length (detection_boxes dets)"
      "num_detections dets \<le> length (detection_scores dets)"
    and b: "\<forall>d\<in>set (detection_boxes dets). 4 \<le> length d"
    and u: "\<forall>rows. \<forall>t\<in>set (upd rows). length (tlbr t) = 4"
  shows "\<exists>kept fr. target_filter_loop (target_class_indices labels (default_target_labels tls))
             (detection_boxes dets) (detection_scores dets) (detection_classes dets)
             [0..<num_detections dets] = Inr kept
     \<and> draw_detections dets labels (Some upd) sm tls ld (Some m) epo pci = Inr fr
     \<and> (kept \<noteq> [] \<longrightarrow>
           (\<exists>rest. fr_calls fr = UpdateFrameCount # rest \<and> UpdateFrameCount \<notin> set rest)
           \<and> map_option current_frame (fr_manager fr) = Some (current_frame m + 1))
     \<and> (kept = [] \<longrightarrow> fr_calls fr = [] \<and> fr_manager fr = Some m \<and> fr_drawn fr = [])"
proof -
  from draw_detections_tracked [OF n b u, of labels tls sm ld m epo pci]
  obtain kept where k: "target_filter_loop (target_class_indices labels (default_target_labels tls))
             (detection_boxes dets) (detection_scores dets) (detection_classes dets)
             [0..<num_detections dets] = Inr kept"
    and e: "kept = [] \<Longrightarrow>
          draw_detections dets labels (Some upd) sm tls ld (Some m) epo pci =
            Inr \<lparr> fr_manager = Some m, fr_speed = sm, fr_calls = [], fr_drawn = [] \<rparr>"
    and f: "kept \<noteq> [] \<Longrightarrow>
          \<exists>fr mid S. draw_detections dets labels (Some upd) sm tls ld (Some m) epo pci = Inr fr
             \<and> fr_calls fr = UpdateFrameCount # mid @ [CleanupMissingTracks S]
             \<and> (\<forall>c\<in>set mid. \<exists>k. c = UpdateTrack k \<or> c = IsLoitering k)
             \<and> fr_manager fr = Some (lm_run (fr_calls fr) m)"
    by blast
  show ?thesis
  proof (cases "kept = []")
    case True
    from e [OF True] k True show ?thesis by simp
  next
    case False
    from f [OF False] obtain fr mid S where
        r: "draw_detections dets labels (Some upd) sm tls ld (Some m) epo pci = Inr fr"
        and c: "fr_calls fr = UpdateFrameCount # mid @ [CleanupMissingTracks S]"
        and t: "\<forall>c\<in>set mid. \<exists>k. c = UpdateTrack k \<or> c = IsLoitering k"
        and g: "fr_manager fr = Some (lm_run (fr_calls fr) m)"
      by blast
    have notin: "UpdateFrameCount \<notin> set (mid @ [CleanupMissingTracks S])"
      using t by auto
    then have "count_list (mid @ [CleanupMissingTracks S]) UpdateFrameCount = 0"
      by (simp only: count_list_0_iff not_False_eq_True)
    then have "current_frame (lm_run (fr_calls fr) m) = current_frame m + 1"
      unfolding c lm_run_current_frame_eq by simp
    then have cf: "map_option current_frame (fr_manager fr) = Some (current_frame m + 1)"
      using g by simp
    from k r c notin cf False show ?thesis by blast
  qed
qed

text \<open>
  A frame without detections, on a manager at frame 5 that follows track 7, leaves the
  counter at 5; a frame with one person detection and its track takes it to 6.
\<close>

theorem draw_detections_frame_count_witness:
  "map_sum id fr_calls
     (draw_detections \<lparr> detection_boxes = [], detection_classes = [], detection_scores = [], num_detections = 0 \<rparr>
        [''person'', ''car''] (Some (constant_tracker []))
        (None :: unit speed_manager option) None True
        (Some \<lparr> loitering_threshold = 10, frame_threshold = 300, track_start_frames = [7 \<mapsto> 3], current_frame = 5 \<rparr>) False 0) = Inr []
   \<and> map_sum id (\<lambda>fr. map_option current_frame (fr_manager fr))
     (draw_detections \<lparr> detection_boxes = [], detection_classes = [], detection_scores = [], num_detections = 0 \<rparr>
        [''person'', ''car''] (Some (constant_tracker []))
        (None :: unit speed_manager option) None True
        (Some \<lparr> loitering_threshold = 10, frame_threshold = 300, track_start_frames = [7 \<mapsto> 3], current_frame = 5 \<rparr>) False 0) = Inr (Some 5)
   \<and> map_sum id (\<lambda>fr. map_option current_frame (fr_manager fr))
     (draw_detections \<lparr> detection_boxes = [[0, 0, 10, 10]], detection_classes = [0], detection_scores = [9/10], num_detections = 1 \<rparr>
        [''person'', ''car''] (Some (constant_tracker [\<lparr> track_id = 7, tlbr = [0, 0, 10, 10], score = 4/5 \<rparr>]))
        (None :: unit speed_manager option) None True
        (Some \<lparr> loitering_threshold = 10, frame_threshold = 300, track_start_frames = [7 \<mapsto> 3], current_frame = 5 \<rparr>) False 0) = Inr (Some 6)"
proof -
  let ?D0 = "\<lparr> detection_boxes = [], detection_classes = [], detection_scores = [], num_detections = 0 \<rparr>"
  let ?D1 = "\<lparr> detection_boxes = [[0, 0, 10, 10]], detection_classes = [0], detection_scores = [9/10], num_detections = 1 \<rparr>"
  let ?M = "\<lparr> loitering_threshold = 10, frame_threshold = 300, track_start_frames = [7 \<mapsto> 3], current_frame = 5 \<rparr>"
  let ?L = "[''person'', ''car'']"
  let ?u0 = "constant_tracker []"
  let ?u1 = "constant_tracker [\<lparr> track_id = 7, tlbr = [0, 0, 10, 10], score = 4/5 \<rparr>]"
  let ?sm = "None :: unit speed_manager option"
  have h0: "num_detections ?D0 \<le> length (detection_classes ?D0)"
      "num_detections ?D0 \<le> length (detection_boxes ?D0)"
      "num_detections ?D0 \<le> length (detection_scores ?D0)"
      "\<forall>d\<in>set (detection_boxes ?D0). 4 \<le> length d"
      "\<forall>rows. \<forall>t\<in>set (?u0 rows). length (tlbr t) = 4"
    by (simp_all add: constant_tracker_def)
  have h1: "num_detections ?D1 \<le> length (detection_classes ?D1)"
      "num_detections ?D1 \<le> length (detection_boxes ?D1)"
      "num_detections ?D1 \<le> length (detection_scores ?D1)"
      "\<forall>d\<in>set (detection_boxes ?D1). 4 \<le> length d"
      "\<forall>rows. \<forall>t\<in>set (?u1 rows). length (tlbr t) = 4"
    by (simp_all add: constant_tracker_def)
  have f0: "target_filter_loop (target_class_indices ?L (default_target_labels None))
             (detection_boxes ?D0) (detection_scores ?D0) (detection_classes ?D0)
             [0..<num_detections ?D0] = Inr []"
    by simp
  have f1: "target_filter_loop (target_class_indices ?L (default_target_labels None))
             (detection_boxes ?D1) (detection_scores ?D1) (detection_classes ?D1)
             [0..<num_detections ?D1] = Inr [([0, 0, 10, 10], 9/10, 0)]"
    by (simp add: target_class_indices_def default_target_labels_def)
  from draw_detections_frame_count [OF h0, of ?L None ?sm True ?M False 0] f0
  obtain fr0 where r0: "draw_detections ?D0 ?L (Some ?u0) ?sm None True (Some ?M) False 0 = Inr fr0"
      "fr_calls fr0 = []" "fr_manager fr0 = Some ?M"
    by auto
  from draw_detections_frame_count [OF h1, of ?L None ?sm True ?M False 0] f1
  obtain fr1 where r1: "draw_detections ?D1 ?L (Some ?u1) ?sm None True (Some ?M) False 0 = Inr fr1"
      "map_option current_frame (fr_manager fr1) = Some (current_frame ?M + 1)"
    by auto
  have a: "map_sum id fr_calls (draw_detections ?D0 ?L (Some ?u0) ?sm None True (Some ?M) False 0)
      = Inr []"
    unfolding r0(1) using r0(2) by simp
  have b: "map_sum id (\<lambda>fr. map_option current_frame (fr_manager fr))
      (draw_detections ?D0 ?L (Some ?u0) ?sm None True (Some ?M) False 0) = Inr (Some 5)"
    unfolding r0(1) using r0(3) by simp
  have c: "map_sum id (\<lambda>fr. map_option current_frame (fr_manager fr))
      (draw_detections ?D1 ?L (Some ?u1) ?sm None True (Some ?M) False 0) = Inr (Some 6)"
    unfolding r1(1) using r1(2) by simp
  from a b c show ?thesis by blast
qed

text \<open>
  C5 (amended). Under the same conditions, on a frame on which at least one detection is
  kept by the filter, \<open>cleanup_missing_tracks\<close> is the last call on the manager and the only
  one of its kind, so it comes after every \<open>update_track\<close> of the frame; the set passed to
  it holds the ids of the tracks returned by the tracker that have a matching detection
  (a kept detection of positive IoU with the track's box), and after the frame the manager
  records a start frame for no other id. A track returned by the tracker without a
  matching detection is not in the set.
\<close>

theorem draw_detections_cleanup_matched:
  assumes n: "num_detections dets \<le> length (detection_classes dets)"
      "num_detections dets \<le> length (detection_boxes dets)"
      "num_detections dets \<le> length (detection_scores dets)"
    and b: "\<forall>d\<in>set (detection_boxes dets). 4 \<le> length d"
    and u: "\<forall>rows. \<forall>t\<in>set (upd rows). length (tlbr t) = 4"
  shows "\<exists>kept fr S. target_filter_loop (target_class_indices labels (default_target_labels tls))
             (detection_boxes dets) (detection_scores dets) (detection_classes dets)
             [0..<num_detections dets] = Inr kept
     \<and> draw_detections dets labels (Some upd) sm tls ld (Some m) epo pci = Inr fr
     \<and> S = track_id ` {t \<in> set (upd (map (\<lambda>(box, sc, cls). box @ [sc]) kept)).
                        \<exists>d\<in>set (map fst kept). 0 < iou_value (tlbr t) d}
     \<and> (kept \<noteq> [] \<longrightarrow>
           (\<exists>before. fr_calls fr = before @ [CleanupMissingTracks S]
              \<and> (\<forall>c\<in>set before. \<forall>ids. c \<noteq> CleanupMissingTracks ids))
           \<and> (\<exists>m'. fr_manager fr = Some m' \<and> dom (track_start_frames m') \<subseteq> S))"
proof -
  from draw_detections_tracked [OF n b u, of labels tls sm ld m epo pci]
  obtain kept where k: "target_filter_loop (target_class_indices labels (default_target_labels tls))
             (detection_boxes dets) (detection_scores dets) (detection_classes dets)
             [0..<num_detections dets] = Inr kept"
    and e: "kept = [] \<Longrightarrow>
          draw_detections dets labels (Some upd) sm tls ld (Some m) epo pci =
            Inr \<lparr> fr_manager = Some m, fr_speed = sm, fr_calls = [], fr_drawn = [] \<rparr>"
    and f: "kept \<noteq> [] \<Longrightarrow>
          \<exists>fr mid. draw_detections dets labels (Some upd) sm tls ld (Some m) epo pci = Inr fr
             \<and> fr_calls fr = UpdateFrameCount # mid @
                  [CleanupMissingTracks
                     (track_id ` {t \<in> set (upd (map (\<lambda>(box, sc, cls). box @ [sc]) kept)).
                                   \<exists>d\<in>set (map fst kept). 0 < iou_value (tlbr t) d})]
             \<and> (\<forall>c\<in>set mid. \<exists>k. c = UpdateTrack k \<or> c = IsLoitering k)
             \<and> fr_manager fr = Some (lm_run (fr_calls fr) m)"
    by blast
  define S where "S = track_id ` {t \<in> set (upd (map (\<lambda>(box, sc, cls). box @ [sc]) kept)).
                        \<exists>d\<in>set (map fst kept). 0 < iou_value (tlbr t) d}"
  show ?thesis
  proof (cases "kept = []")
    case True
    from e [OF True] k True show ?thesis by simp
  next
    case False
    from f [OF False] obtain fr mid where
        r: "draw_detections dets labels (Some upd) sm tls ld (Some m) epo pci = Inr fr"
        and c: "fr_calls fr = (UpdateFrameCount # mid) @ [CleanupMissingTracks S]"
        and t: "\<forall>c\<in>set mid. \<exists>k. c = UpdateTrack k \<or> c = IsLoitering k"
        and g: "fr_manager fr = Some (lm_run (fr_calls fr) m)"
      unfolding S_def by auto
    have nocl: "\<forall>c\<in>set (UpdateFrameCount # mid). \<forall>ids. c \<noteq> CleanupMissingTracks ids"
      using t by auto
    have "lm_run (fr_calls fr) m = cleanup_missing_tracks (lm_run (UpdateFrameCount # mid) m) S"
      unfolding c lm_run_append by (simp add: lm_run_def)
    then have "dom (track_start_frames (lm_run (fr_calls fr) m)) \<subseteq> S"
      by (auto simp: cleanup_lookup split: if_splits)
    with g have mg: "\<exists>m'. fr_manager fr = Some m' \<and> dom (track_start_frames m') \<subseteq> S"
      by simp
    from k r c nocl mg show ?thesis unfolding S_def by blast
  qed
qed

text \<open>
  One person detection; the tracker returns track 7 on the detection and track 8 away
  from it: the last call is the cleanup with the set holding 7 alone.
\<close>

theorem draw_detections_cleanup_matched_witness:
  "map_sum id (\<lambda>fr. last (fr_calls fr))
     (draw_detections \<lparr> detection_boxes = [[0, 0, 10, 10]], detection_classes = [0], detection_scores = [9/10], num_detections = 1 \<rparr>
        [''person'', ''car''] (Some (constant_tracker [\<lparr> track_id = 7, tlbr = [0, 0, 10, 10], score = 4/5 \<rparr>, \<lparr> track_id = 8, tlbr = [50, 50, 60, 60], score = 7/10 \<rparr>]))
        (None :: unit speed_manager option) None True
        (Some \<lparr> loitering_threshold = 10, frame_threshold = 300, track_start_frames = [7 \<mapsto> 3], current_frame = 5 \<rparr>) False 0) = Inr (CleanupMissingTracks {7})"
proof -
  let ?D1 = "\<lparr> detection_boxes = [[0, 0, 10, 10]], detection_classes = [0], detection_scores = [9/10], num_detections = 1 \<rparr>"
  let ?M = "\<lparr> loitering_threshold = 10, frame_threshold = 300, track_start_frames = [7 \<mapsto> 3], current_frame = 5 \<rparr>"
  let ?L = "[''person'', ''car'']"
  let ?u1 = "constant_tracker [\<lparr> track_id = 7, tlbr = [0, 0, 10, 10], score = 4/5 \<rparr>, \<lparr> track_id = 8, tlbr = [50, 50, 60, 60], score = 7/10 \<rparr>]"
  let ?sm = "None :: unit speed_manager option"
  have h1: "num_detections ?D1 \<le> length (detection_classes ?D1)"
      "num_detections ?D1 \<le> length (detection_boxes ?D1)"
      "num_detections ?D1 \<le> length (detection_scores ?D1)"
      "\<forall>d\<in>set (detection_boxes ?D1). 4 \<le> length d"
      "\<forall>rows. \<forall>t\<in>set (?u1 rows). length (tlbr t) = 4"
    by (simp_all add: constant_tracker_def)
  have f1: "target_filter_loop (target_class_indices ?L (default_target_labels None))
             (detection_boxes ?D1) (detection_scores ?D1) (detection_classes ?D1)
             [0..<num_detections ?D1] = Inr [([0, 0, 10, 10], 9/10, 0)]"
    by (simp add: target_class_indices_def default_target_labels_def)
  have i7: "0 < iou_value [0, 0, 10, 10] [0, 0, 10, 10]"
    by (simp add: iou_value_def compute_iou_def Let_def)
  have i8: "\<not> 0 < iou_value [50, 50, 60, 60] [0, 0, 10, 10]"
    by (simp add: iou_value_def compute_iou_def Let_def)
  have S: "track_id ` {t \<in> set (?u1 (map (\<lambda>(box, sc, cls). box @ [sc]) [([0, 0, 10, 10], 9/10, 0::nat)])).
                        \<exists>d\<in>set (map fst [([0, 0, 10, 10], 9/10 :: real, 0::nat)]). 0 < iou_value (tlbr t) d}
       = {7}"
  proof -
    have "{t \<in> set [\<lparr> track_id = 7, tlbr = [0, 0, 10, 10], score = 4/5 \<rparr>,
                     \<lparr> track_id = 8, tlbr = [50, 50, 60, 60], score = 7/10 \<rparr>].
             0 < iou_value (tlbr t) [0, 0, 10, 10]}
        = {\<lparr> track_id = 7, tlbr = [0, 0, 10, 10], score = 4/5 \<rparr>}"
      using i7 i8 by auto
    then show ?thesis by (simp add: constant_tracker_def)
  qed
  from draw_detections_cleanup_matched [OF h1, of ?L None ?sm True ?M False 0] f1
  obtain fr1 before where
      r1: "draw_detections ?D1 ?L (Some ?u1) ?sm None True (Some ?M) False 0 = Inr fr1"
      "fr_calls fr1 = before @ [CleanupMissingTracks
         (track_id ` {t \<in> set (?u1 (map (\<lambda>(box, sc, cls). box @ [sc]) [([0, 0, 10, 10], 9/10, 0::nat)])).
                        \<exists>d\<in>set (map fst [([0, 0, 10, 10], 9/10 :: real, 0::nat)]). 0 < iou_value (tlbr t) d})]"
    by auto
  have "last (fr_calls fr1) = CleanupMissingTracks {7}"
    unfolding r1(2) S by simp
  then show ?thesis unfolding r1(1) by simp
qed

text \<open>
  On that frame the tracker returned the tracks 7 and 8, and the set passed to
  \<open>cleanup_missing_tracks\<close> is not the set of their ids.
\<close>

theorem draw_detections_unmatched_track_counterexample:
  "map_sum id fr_calls
     (draw_detections \<lparr> detection_boxes = [[0, 0, 10, 10]], detection_classes = [0], detection_scores = [9/10], num_detections = 1 \<rparr>
        [''person'', ''car''] (Some (constant_tracker [\<lparr> track_id = 7, tlbr = [0, 0, 10, 10], score = 4/5 \<rparr>, \<lparr> track_id = 8, tlbr = [50, 50, 60, 60], score = 7/10 \<rparr>]))
        (None :: unit speed_manager option) None True
        (Some \<lparr> loitering_threshold = 10, frame_threshold = 300, track_start_frames = [7 \<mapsto> 3], current_frame = 5 \<rparr>) False 0)
     = Inr [UpdateFrameCount, UpdateTrack 7, IsLoitering 7, CleanupMissingTracks {7}]
   \<and> track_id ` set (constant_tracker [\<lparr> track_id = 7, tlbr = [0, 0, 10, 10], score = 4/5 \<rparr>, \<lparr> track_id = 8, tlbr = [50, 50, 60, 60], score = 7/10 \<rparr>] [[0, 0, 10, 10, 9/10]]) = {7, 8}
   \<and> ({7} :: int set) \<noteq> {7, 8}"
  by (simp add: dd_eval Let_def update_frame_count_def update_track_def is_loitering_def
        defaultdict_getitem_def)

end
